theory Spec2Isabelle
  imports Complex_Main
begin

section \<open>Python values used by the program\<close>

text \<open>
  A raised Python exception is a value carrying its message (\<open>str(e)\<close>); a function that
  can raise returns \<open>error + 'a\<close>, with \<open>Inl\<close> for the exception that leaves it.
\<close>

datatype error = Exception string

text \<open>
  The slice \<open>xs[:m]\<close>: a non-negative bound keeps the first \<open>m\<close> elements, a negative one
  counts from the end (and keeps nothing when it reaches before the start).
\<close>

definition slice_to :: "int \<Rightarrow> 'a list \<Rightarrow> 'a list" where
  "slice_to m xs =
     (if 0 \<le> m then take (nat m) xs else take (nat (int (length xs) + m)) xs)"

text \<open>
  The Python values a setting can hold: \<open>None\<close>, booleans, integers, strings, lists,
  tuples, dictionaries with string keys, and any other object (a set, bytes, ...), which
  is known here by the name of its type only. A dictionary is the list of its items in
  insertion order, with no key twice. (Floats are left out; no setting of the program is
  one.)
\<close>

datatype pyval =
    PNone
  | PBool bool
  | PInt int
  | PStr string
  | PList "pyval list"
  | PTuple "pyval list"
  | PDict "(string \<times> pyval) list"
  | PObject string

text \<open>
  What \<open>json.load\<close> reads back after \<open>json.dump\<close> wrote a value: a tuple comes back as a
  list, an object that JSON cannot carry makes \<open>json.dump\<close> raise \<open>TypeError\<close> (no image).
\<close>

fun json_image :: "pyval \<Rightarrow> pyval option"
  and json_images :: "pyval list \<Rightarrow> pyval list option"
  and json_items :: "(string \<times> pyval) list \<Rightarrow> (string \<times> pyval) list option" where
  "json_image PNone = Some PNone"
| "json_image (PBool b) = Some (PBool b)"
| "json_image (PInt i) = Some (PInt i)"
| "json_image (PStr t) = Some (PStr t)"
| "json_image (PList xs) = map_option PList (json_images xs)"
| "json_image (PTuple xs) = map_option PList (json_images xs)"
| "json_image (PDict kvs) = map_option PDict (json_items kvs)"
| "json_image (PObject n) = None"
| "json_images [] = Some []"
| "json_images (x # xs) =
     (case json_image x of None \<Rightarrow> None | Some y \<Rightarrow> map_option ((#) y) (json_images xs))"
| "json_items [] = Some []"
| "json_items (kv # kvs) =
     (case json_image (snd kv) of
        None \<Rightarrow> None
      | Some y \<Rightarrow> map_option ((#) (fst kv, y)) (json_items kvs))"

text \<open>\<open>type(x).__name__\<close>.\<close>

fun type_name :: "pyval \<Rightarrow> string" where
  "type_name PNone = ''NoneType''"
| "type_name (PBool b) = ''bool''"
| "type_name (PInt i) = ''int''"
| "type_name (PStr t) = ''str''"
| "type_name (PList xs) = ''list''"
| "type_name (PTuple xs) = ''tuple''"
| "type_name (PDict kvs) = ''dict''"
| "type_name (PObject n) = n"

text \<open>\<open>d[key] = value\<close> on a dictionary: a present key keeps its place, a new one goes last.\<close>

fun dict_set :: "string \<Rightarrow> 'v \<Rightarrow> (string \<times> 'v) list \<Rightarrow> (string \<times> 'v) list" where
  "dict_set k v [] = [(k, v)]"
| "dict_set k v (kv # d) = (if fst kv = k then (k, v) # d else kv # dict_set k v d)"

section \<open>JSON files: \<open>load_json\<close> and \<open>save_json\<close>\<close>

text \<open>
  A backing file is \<open>Some d\<close> when it exists and parses to the document \<open>d\<close>, and \<open>None\<close>
  when it is missing or unreadable. \<open>load_json\<close> swallows every exception and falls back
  to the default. \<open>save_json\<close> swallows every exception too, so a write has three
  outcomes: the document replaced the file; creating the directory or opening the file
  raised and the file is as before; or the file was opened for writing (and so truncated)
  and dumping raised, which leaves no parsable document.
\<close>

datatype write_outcome = Written | Failed_untouched | Failed_truncated

definition load_json :: "'d option \<Rightarrow> 'd \<Rightarrow> 'd" where
  "load_json file dflt = (case file of Some d \<Rightarrow> d | None \<Rightarrow> dflt)"

definition save_json :: "write_outcome \<Rightarrow> 'd option \<Rightarrow> 'd \<Rightarrow> 'd option" where
  "save_json w file d =
     (case w of Written \<Rightarrow> Some d | Failed_untouched \<Rightarrow> file | Failed_truncated \<Rightarrow> None)"

section \<open>Settings\<close>

definition DEFAULT_SETTINGS :: "(string \<times> pyval) list" where
  "DEFAULT_SETTINGS =
     [(''theme'', PStr ''Dark''),
      (''post_build_action'', PStr ''None''),
      (''post_build_copy_path'', PStr []),
      (''show_notifications'', PBool True),
      (''auto_check_updates'', PBool True),
      (''max_recent_files'', PInt 10),
      (''max_history_items'', PInt 50),
      (''default_profile'', PStr ''Default''),
      (''signing_cert_path'', PStr []),
      (''signing_cert_password'', PStr [])]"

text \<open>
  The settings file holds a JSON document, whatever it is. \<open>Settings.load\<close> takes the
  document, or the empty dictionary when the file is missing or unreadable, and calls
  \<open>items()\<close> on it, which raises \<open>AttributeError\<close> when the document is not a dictionary.
  Every item whose key the settings already hold overwrites that key; the other items are
  skipped.
\<close>

definition settings_load ::
  "(string \<times> pyval) list \<Rightarrow> pyval option \<Rightarrow> error + (string \<times> pyval) list" where
  "settings_load s file =
     (case load_json file (PDict []) of
        PDict saved \<Rightarrow>
          Inr (fold (\<lambda>item s. if map_of s (fst item) \<noteq> None
                              then dict_set (fst item) (snd item) s else s) saved s)
      | other \<Rightarrow>
          Inl (Exception ([CHR 0x27] @ type_name other @ [CHR 0x27]
                 @ '' object has no attribute '' @ [CHR 0x27] @ ''items'' @ [CHR 0x27])))"

text \<open>\<open>Settings.__init__\<close>: a copy of the defaults, then \<open>load\<close>.\<close>

definition settings_init :: "pyval option \<Rightarrow> error + (string \<times> pyval) list" where
  "settings_init file = settings_load DEFAULT_SETTINGS file"

text \<open>
  \<open>Settings.save\<close>: when JSON can carry every value, the file receives the image of the
  dictionary (if the write goes through). When it cannot, \<open>json.dump\<close> raises after the
  file was opened and truncated, and \<open>save_json\<close> swallows the exception: the file holds
  no document, unless it could not even be opened.
\<close>

definition settings_save ::
  "write_outcome \<Rightarrow> (string \<times> pyval) list \<Rightarrow> pyval option \<Rightarrow> pyval option" where
  "settings_save w s file =
     (case json_image (PDict s) of
        Some doc \<Rightarrow> save_json w file doc
      | None \<Rightarrow> (case w of Failed_untouched \<Rightarrow> file | _ \<Rightarrow> None))"

text \<open>
  \<open>Settings.get(key, default)\<close>: the stored value, or the default for a key that is not
  there. The default of \<open>default\<close> is \<open>None\<close>, so a plain \<open>get(key)\<close> answers \<open>None\<close> both for
  a missing key and for a key that holds \<open>None\<close>.
\<close>

definition settings_get :: "(string \<times> pyval) list \<Rightarrow> string \<Rightarrow> pyval \<Rightarrow> pyval" where
  "settings_get s key dflt = (case map_of s key of Some v \<Rightarrow> v | None \<Rightarrow> dflt)"

text \<open>\<open>Settings.set\<close>: store under the key, whatever it is, then save.\<close>

definition settings_set ::
  "write_outcome \<Rightarrow> string \<Rightarrow> pyval \<Rightarrow> (string \<times> pyval) list \<times> pyval option
     \<Rightarrow> (string \<times> pyval) list \<times> pyval option" where
  "settings_set w key v st =
     (let s' = dict_set key v (fst st) in (s', settings_save w s' (snd st)))"

section \<open>Recent files\<close>

record recent_files =
  r_max_items :: int
  r_files :: "string list"

text \<open>
  \<open>RecentFiles.add\<close>: \<open>list.remove\<close> drops the first occurrence, the path goes to the
  front, the list is cut to \<open>max_items\<close> and saved.
\<close>

definition recent_add ::
  "write_outcome \<Rightarrow> string \<Rightarrow> recent_files \<times> string list option \<Rightarrow> recent_files \<times> string list option" where
  "recent_add w filepath st =
     (let r = fst st;
          fs1 = (if filepath \<in> set (r_files r) then remove1 filepath (r_files r) else r_files r);
          fs2 = filepath # fs1;
          fs3 = slice_to (r_max_items r) fs2
      in (r\<lparr>r_files := fs3\<rparr>, save_json w (snd st) fs3))"

section \<open>Compilation history\<close>

record history_entry =
  e_timestamp :: string
  e_source :: string
  e_output :: string
  e_type :: string
  e_success :: bool
  e_profile :: string
  e_size :: int

record compilation_history =
  h_max_items :: int
  h_history :: "history_entry list"

text \<open>
  \<open>CompilationHistory.add\<close>; \<open>now\<close> is what \<open>datetime.now().isoformat()\<close> returns at
  the call.
\<close>

definition history_add ::
  "write_outcome \<Rightarrow> string \<Rightarrow> string \<Rightarrow> string \<Rightarrow> string \<Rightarrow> bool \<Rightarrow> string \<Rightarrow> int
     \<Rightarrow> compilation_history \<times> history_entry list option
     \<Rightarrow> compilation_history \<times> history_entry list option" where
  "history_add w now src out file_type ok prof sz st =
     (let h = fst st;
          entry = \<lparr>e_timestamp = now, e_source = src, e_output = out, e_type = file_type,
                   e_success = ok, e_profile = prof, e_size = sz\<rparr>;
          hs1 = entry # h_history h;
          hs2 = slice_to (h_max_items h) hs1
      in (h\<lparr>h_history := hs2\<rparr>, save_json w (snd st) hs2))"

text \<open>One recorded call of \<open>add\<close>: the outcome of its write, the clock, the arguments.\<close>

record add_call =
  c_write :: write_outcome
  c_now :: string
  c_source :: string
  c_output :: string
  c_type :: string
  c_success :: bool
  c_profile :: string
  c_size :: int

definition entry_of :: "add_call \<Rightarrow> history_entry" where
  "entry_of c = \<lparr>e_timestamp = c_now c, e_source = c_source c, e_output = c_output c,
                 e_type = c_type c, e_success = c_success c, e_profile = c_profile c,
                 e_size = c_size c\<rparr>"

definition history_add_call ::
  "add_call \<Rightarrow> compilation_history \<times> history_entry list option
     \<Rightarrow> compilation_history \<times> history_entry list option" where
  "history_add_call c st =
     history_add (c_write c) (c_now c) (c_source c) (c_output c) (c_type c)
       (c_success c) (c_profile c) (c_size c) st"

text \<open>A sequence of calls, in the order they are made.\<close>

fun history_add_calls ::
  "add_call list \<Rightarrow> compilation_history \<times> history_entry list option
     \<Rightarrow> compilation_history \<times> history_entry list option" where
  "history_add_calls [] st = st"
| "history_add_calls (c # cs) st = history_add_calls cs (history_add_call c st)"

text \<open>A sample call, recording a successful build of the named source.\<close>

definition sample_call :: "string \<Rightarrow> add_call" where
  "sample_call s = \<lparr>c_write = Written, c_now = ''2024-01-01T00:00:00'', c_source = s,
     c_output = ''out.exe'', c_type = ''py'', c_success = True, c_profile = ''Default'',
     c_size = 1\<rparr>"

section \<open>The host: paths, environment, file system, processes\<close>

text \<open>
  The file system is the map from the paths that exist to their size in bytes.
\<close>

type_synonym fsys = "string \<rightharpoonup> nat"

text \<open>What \<open>subprocess.run\<close> returns with \<open>capture_output=True, text=True\<close>.\<close>

record completed_process =
  returncode :: int
  stdout :: string
  stderr :: string

text \<open>
  What \<open>subprocess.run\<close> meets. Starting the process raises and no process runs (the
  executable is missing, access is denied). Or the process runs to its end and its
  captured output decodes as text, which leaves a completed process and the file system
  as the process left it. Or the process runs to its end, with its exit status, and its
  captured output does not decode: \<open>subprocess.run\<close> then raises after the process has run.
\<close>

datatype proc_outcome =
    Spawn_failed string
  | Completed completed_process fsys
  | Undecodable int string fsys

text \<open>The exit status of the process, when one ran.\<close>

fun exit_status :: "proc_outcome \<Rightarrow> int option" where
  "exit_status (Spawn_failed msg) = None"
| "exit_status (Completed r f) = Some (returncode r)"
| "exit_status (Undecodable rc msg f) = Some rc"

text \<open>
  The host answers what the program asks of the standard library and the operating
  system. The path functions are those of the platform's \<open>os.path\<close> and \<open>pathlib\<close>:
  \<open>path_join a b\<close> is \<open>os.path.join(a, b)\<close>, \<open>path_div a b\<close> is \<open>str(Path(a) / b)\<close>.
  \<open>mkdtemp\<close> raises or returns the directory it created. \<open>no_such_file\<close> is the text of
  the exception for a missing file; \<open>copy_fault\<close> and \<open>write_fault\<close> give the text of the
  exception when copying or writing fails for another reason; \<open>probe_denied\<close> gives the
  text of the \<open>PermissionError\<close> when the host denies looking at a path; \<open>rmtree_fails\<close> tells
  whether removing a tree fails; \<open>proc\<close> is the outcome of starting a command in a
  working directory on a file system.
\<close>

record host =
  which :: "string \<Rightarrow> string option"
  environ :: "string \<rightharpoonup> string"
  path_join :: "string \<Rightarrow> string \<Rightarrow> string"
  path_div :: "string \<Rightarrow> string \<Rightarrow> string"
  dirname :: "string \<Rightarrow> string"
  basename :: "string \<Rightarrow> string"
  splitext :: "string \<Rightarrow> string \<times> string"
  seps :: "char list"
  mkdtemp :: "fsys \<Rightarrow> error + string"
  no_such_file :: "string \<Rightarrow> string"
  copy_fault :: "string \<Rightarrow> string \<Rightarrow> string option"
  write_fault :: "string \<Rightarrow> string option"
  probe_denied :: "string \<Rightarrow> string option"
  rmtree_fails :: "string \<Rightarrow> bool"
  proc :: "string list \<Rightarrow> string option \<Rightarrow> fsys \<Rightarrow> proc_outcome"

text \<open>
  The state the program changes: the file system, and the record of every attempt to
  start a process (the command and the working directory), oldest first.
\<close>

record world =
  fs :: fsys
  spawned :: "(string list \<times> string option) list"

definition path_exists :: "world \<Rightarrow> string \<Rightarrow> bool" where
  "path_exists w p = (fs w p \<noteq> None)"

text \<open>
  \<open>path_exists\<close> is \<open>os.path.exists\<close>, which answers \<open>False\<close> where it may not look.
  \<open>Path.exists()\<close> answers the same, except that a denied look raises.
\<close>

definition pathlib_exists :: "host \<Rightarrow> world \<Rightarrow> string \<Rightarrow> error + bool" where
  "pathlib_exists h w p =
     (case probe_denied h p of
        Some msg \<Rightarrow> Inl (Exception msg)
      | None \<Rightarrow> Inr (path_exists w p))"

text \<open>
  \<open>next((str(p) for p in paths if p.exists()), None)\<close>: the paths are probed in order, up
  to the first that exists.
\<close>

fun first_existing :: "host \<Rightarrow> world \<Rightarrow> string list \<Rightarrow> error + string option" where
  "first_existing h w [] = Inr None"
| "first_existing h w (p # ps) =
     (case pathlib_exists h w p of
        Inl e \<Rightarrow> Inl e
      | Inr b \<Rightarrow> if b then Inr (Some p) else first_existing h w ps)"

definition environ_get :: "host \<Rightarrow> string \<Rightarrow> string \<Rightarrow> string" where
  "environ_get h k dflt = (case environ h k of Some v \<Rightarrow> v | None \<Rightarrow> dflt)"

text \<open>\<open>os.path.join(a, b1, ..., bn)\<close> joins from the left.\<close>

definition join_all :: "host \<Rightarrow> string \<Rightarrow> string list \<Rightarrow> string" where
  "join_all h a bs = foldl (path_join h) a bs"

text \<open>Truth of an optional string: \<open>None\<close> and the empty string are false.\<close>

definition truthy :: "string option \<Rightarrow> bool" where
  "truthy x = (case x of None \<Rightarrow> False | Some s \<Rightarrow> s \<noteq> [])"

text \<open>\<open>icon and os.path.exists(icon)\<close>.\<close>

definition icon_usable :: "world \<Rightarrow> string option \<Rightarrow> bool" where
  "icon_usable w icon = (case icon of None \<Rightarrow> False | Some i \<Rightarrow> i \<noteq> [] \<and> path_exists w i)"

text \<open>
  \<open>shutil.copy\<close>: raises when the source is missing or the copy fails, and otherwise the
  destination exists with the size of the source.
\<close>

definition shutil_copy :: "host \<Rightarrow> string \<Rightarrow> string \<Rightarrow> fsys \<Rightarrow> error + fsys" where
  "shutil_copy h src dst f =
     (case f src of
        None \<Rightarrow> Inl (Exception (no_such_file h src))
      | Some n \<Rightarrow>
          (case copy_fault h src dst of
             Some msg \<Rightarrow> Inl (Exception msg)
           | None \<Rightarrow> Inr (f(dst \<mapsto> n))))"

text \<open>\<open>with open(path, "w") as f: f.write(content)\<close>.\<close>

definition write_text :: "host \<Rightarrow> string \<Rightarrow> string \<Rightarrow> fsys \<Rightarrow> error + fsys" where
  "write_text h path content f =
     (case write_fault h path of
        Some msg \<Rightarrow> Inl (Exception msg)
      | None \<Rightarrow> Inr (f(path \<mapsto> length content)))"

text \<open>A path is beneath a directory when it is the directory or continues it after a separator.\<close>

definition beneath :: "host \<Rightarrow> string \<Rightarrow> string \<Rightarrow> bool" where
  "beneath h d p =
     (p = d \<or> (length d < length p \<and> take (length d) p = d \<and> p ! length d \<in> set (seps h)))"

text \<open>
  \<open>shutil.rmtree(d, ignore_errors=True)\<close> never raises: when the removal fails the error is
  ignored and the tree stays, otherwise the directory and everything beneath it is gone.
\<close>

definition rmtree :: "host \<Rightarrow> string \<Rightarrow> world \<Rightarrow> world" where
  "rmtree h d w =
     (if rmtree_fails h d then w
      else w\<lparr>fs := (\<lambda>p. if beneath h d p then None else fs w p)\<rparr>)"

section \<open>\<open>run_command\<close>\<close>

text \<open>
  \<open>subprocess.run\<close>: the attempt is recorded; a failed start raises, a started process
  runs to its end, and output that does not decode raises after that.
\<close>

definition subprocess_run ::
  "host \<Rightarrow> string list \<Rightarrow> string option \<Rightarrow> world \<Rightarrow> (error + completed_process) \<times> world" where
  "subprocess_run h cmd cwd w =
     (let w1 = w\<lparr>spawned := spawned w @ [(cmd, cwd)]\<rparr>
      in case proc h cmd cwd (fs w) of
           Spawn_failed msg \<Rightarrow> (Inl (Exception msg), w1)
         | Completed r f \<Rightarrow> (Inr r, w1\<lparr>fs := f\<rparr>)
         | Undecodable rc msg f \<Rightarrow> (Inl (Exception msg), w1\<lparr>fs := f\<rparr>))"

text \<open>
  \<open>run_command\<close>: the \<open>try\<close> returns the exit test and the two captured texts joined, the
  \<open>except Exception\<close> returns \<open>False\<close> and the text of the exception.
\<close>

definition run_command ::
  "host \<Rightarrow> string list \<Rightarrow> string option \<Rightarrow> world \<Rightarrow> (error + bool \<times> string) \<times> world" where
  "run_command h cmd cwd w =
     (case subprocess_run h cmd cwd w of
        (Inr r, w') \<Rightarrow> (Inr (returncode r = 0, stdout r @ stderr r), w')
      | (Inl (Exception msg), w') \<Rightarrow> (Inr (False, msg), w'))"

section \<open>The compilers\<close>

definition dq :: string where
  "dq = [CHR 0x22]"

definition backslash :: string where
  "backslash = [CHR 0x5C]"

definition newline :: string where
  "newline = [CHR 0x0A]"

definition sq :: string where
  "sq = [CHR 0x27]"

text \<open>\<open>metadata.get(key)\<close> when it is true: a key that is present with a non-empty text.\<close>

definition meta_flag :: "(string \<rightharpoonup> string) \<Rightarrow> string \<Rightarrow> string \<Rightarrow> string" where
  "meta_flag m key flag =
     (if truthy (m key) then '' '' @ flag @ '' '' @ dq @ the (m key) @ dq else [])"

text \<open>
  \<open>compile_ps1\<close>. An empty metadata dictionary is false in the source and adds nothing;
  here it reaches the four lookups, which add nothing either.
\<close>

definition compile_ps1 ::
  "host \<Rightarrow> string \<Rightarrow> string \<Rightarrow> string option \<Rightarrow> bool \<Rightarrow> bool \<Rightarrow> (string \<rightharpoonup> string) option
     \<Rightarrow> world \<Rightarrow> (error + bool \<times> string) \<times> world" where
  "compile_ps1 h src out icon admin no_console metadata w =
     (let cmd = [''powershell'', ''-ExecutionPolicy'', ''Bypass'', ''-Command''];
          ps0 = ''Invoke-PS2EXE -InputFile '' @ dq @ src @ dq @ '' -OutputFile '' @ dq @ out @ dq;
          ps1 = (if icon_usable w icon then ps0 @ '' -IconFile '' @ dq @ the icon @ dq else ps0);
          ps2 = (if admin then ps1 @ '' -RequireAdmin'' else ps1);
          ps3 = (if no_console then ps2 @ '' -NoConsole'' else ps2);
          ps4 = (case metadata of
                   None \<Rightarrow> ps3
                 | Some m \<Rightarrow> ps3 @ meta_flag m ''product'' ''-Title''
                               @ meta_flag m ''version'' ''-Version''
                               @ meta_flag m ''company'' ''-Company''
                               @ meta_flag m ''copyright'' ''-Copyright'')
      in run_command h (cmd @ [ps4]) None w)"

definition compile_py ::
  "host \<Rightarrow> string \<Rightarrow> string \<Rightarrow> string option \<Rightarrow> bool \<Rightarrow> bool
     \<Rightarrow> world \<Rightarrow> (error + bool \<times> string) \<times> world" where
  "compile_py h src out icon one_file console w =
     (let output_dir = dirname h out;
          output_name = fst (splitext h (basename h out));
          cmd0 = [''pyinstaller'', ''--distpath'', output_dir, ''--name'', output_name, ''--noconfirm''];
          cmd1 = (if one_file then cmd0 @ [''--onefile''] else cmd0);
          cmd2 = (if \<not> console then cmd1 @ [''--noconsole''] else cmd1);
          cmd3 = (if icon_usable w icon then cmd2 @ [''--icon'', the icon] else cmd2);
          cmd4 = cmd3 @ [src]
      in run_command h cmd4 None w)"

definition sed_content :: "string \<Rightarrow> string \<Rightarrow> string \<Rightarrow> string" where
  "sed_content out src_name temp_dir =
     concat (map (\<lambda>l. l @ newline)
       [''[Version]'',
        ''Class=IEXPRESS'',
        ''SEDVersion=3'',
        ''[Options]'',
        ''PackagePurpose=InstallApp'',
        ''ShowInstallProgramWindow=0'',
        ''HideExtractAnimation=1'',
        ''UseLongFileName=1'',
        ''InsideCompressed=0'',
        ''CAB_FixedSize=0'',
        ''RebootMode=N'',
        ''TargetName='' @ out,
        ''FriendlyName=App'',
        ''AppLaunched=cmd /c '' @ dq @ src_name @ dq,
        ''PostInstallCmd=<None>'',
        ''SourceFiles=SourceFiles'',
        ''[Strings]'',
        ''[SourceFiles]'',
        ''SourceFiles0='' @ temp_dir @ backslash,
        ''[SourceFiles0]'',
        ''%FILE0%='' @ src_name])"

text \<open>
  The \<open>try\<close> block of \<open>compile_batch\<close>, entered with the workspace created. A copy or a
  write that raises leaves the block at once.
\<close>

definition compile_batch_try ::
  "host \<Rightarrow> string \<Rightarrow> string \<Rightarrow> string \<Rightarrow> world \<Rightarrow> (error + bool \<times> string) \<times> world" where
  "compile_batch_try h src out temp_dir w =
     (let src_name = basename h src
      in case shutil_copy h src (path_join h temp_dir src_name) (fs w) of
           Inl e \<Rightarrow> (Inl e, w)
         | Inr f1 \<Rightarrow>
             (let sed_file = path_join h temp_dir ''config.sed''
              in case write_text h sed_file (sed_content out src_name temp_dir) f1 of
                   Inl e \<Rightarrow> (Inl e, w\<lparr>fs := f1\<rparr>)
                 | Inr f2 \<Rightarrow>
                     (let windir = environ_get h ''WINDIR'' (''C:'' @ backslash @ ''Windows'');
                          iexpress = join_all h windir [''System32'', ''iexpress.exe'']
                      in run_command h [iexpress, ''/N'', ''/Q'', sed_file] None (w\<lparr>fs := f2\<rparr>))))"

text \<open>
  \<open>compile_batch\<close>: \<open>mkdtemp\<close> is called before the \<open>try\<close>, so when it raises nothing is
  cleaned; the \<open>finally\<close> removes the workspace however the \<open>try\<close> block was left, and
  an exception raised in the block goes on to the caller after it.
\<close>

definition compile_batch ::
  "host \<Rightarrow> string \<Rightarrow> string \<Rightarrow> world \<Rightarrow> (error + bool \<times> string) \<times> world" where
  "compile_batch h src out w =
     (case mkdtemp h (fs w) of
        Inl e \<Rightarrow> (Inl e, w)
      | Inr temp_dir \<Rightarrow>
          (let w1 = w\<lparr>fs := (fs w)(temp_dir \<mapsto> 0)\<rparr>;
               r = compile_batch_try h src out temp_dir w1
           in (fst r, rmtree h temp_dir (snd r))))"

definition compile_js ::
  "host \<Rightarrow> string \<Rightarrow> string \<Rightarrow> world \<Rightarrow> (error + bool \<times> string) \<times> world" where
  "compile_js h src out w =
     run_command h [''pkg'', src, ''--target'', ''node18-win-x64'', ''--output'', out] None w"

text \<open>The two places \<open>compile_cs\<close> looks for the C# compiler, in its order.\<close>

definition csc_paths :: "host \<Rightarrow> string list" where
  "csc_paths h =
     (let windir = environ_get h ''WINDIR'' (''C:'' @ backslash @ ''Windows'')
      in [join_all h windir [''Microsoft.NET'', ''Framework64'', ''v4.0.30319'', ''csc.exe''],
          join_all h windir [''Microsoft.NET'', ''Framework'', ''v4.0.30319'', ''csc.exe'']])"

definition compile_cs ::
  "host \<Rightarrow> string \<Rightarrow> string \<Rightarrow> world \<Rightarrow> (error + bool \<times> string) \<times> world" where
  "compile_cs h src out w =
     (let csc = find (path_exists w) (csc_paths h)
      in if \<not> truthy csc then (Inr (False, ''CSC compiler not found''), w)
         else run_command h [the csc, ''/out:'' @ out, src] None w)"

text \<open>Where \<open>compile_go\<close> looks when \<open>go\<close> is not on the search path.\<close>

definition go_path :: "host \<Rightarrow> string" where
  "go_path h = path_div h (environ_get h ''LOCALAPPDATA'' []) ''Programs/Go/bin/go.exe''"

definition compile_go ::
  "host \<Rightarrow> string \<Rightarrow> string \<Rightarrow> world \<Rightarrow> (error + bool \<times> string) \<times> world" where
  "compile_go h src out w =
     (let go_exe0 = which h ''go''
      in case (if \<not> truthy go_exe0
               then (case pathlib_exists h w (go_path h) of
                       Inl e \<Rightarrow> Inl e
                     | Inr b \<Rightarrow> Inr (if b then Some (go_path h) else go_exe0))
               else Inr go_exe0) of
           Inl e \<Rightarrow> (Inl e, w)
         | Inr go_exe \<Rightarrow>
             if \<not> truthy go_exe then (Inr (False, ''Go compiler not found''), w)
             else run_command h [the go_exe, ''build'', ''-o'', out, src] (Some (dirname h src)) w)"

text \<open>The two places \<open>compile_ahk\<close> looks for the AutoHotkey compiler, in its order.\<close>

definition ahk_paths :: "host \<Rightarrow> string list" where
  "ahk_paths h =
     [path_div h (environ_get h ''ProgramFiles'' []) ''AutoHotkey/Compiler/Ahk2Exe.exe'',
      path_div h (environ_get h ''ProgramFiles'' []) ''AutoHotkey/v2/Compiler/Ahk2Exe.exe'']"

definition compile_ahk ::
  "host \<Rightarrow> string \<Rightarrow> string \<Rightarrow> string option \<Rightarrow> world \<Rightarrow> (error + bool \<times> string) \<times> world" where
  "compile_ahk h src out icon w =
     (case first_existing h w (ahk_paths h) of
        Inl e \<Rightarrow> (Inl e, w)
      | Inr ahk \<Rightarrow>
          if \<not> truthy ahk then (Inr (False, ''AutoHotkey compiler not found''), w)
          else (let cmd0 = [the ahk, ''/in'', src, ''/out'', out];
                    cmd1 = (if icon_usable w icon then cmd0 @ [''/icon'', the icon] else cmd0)
                in run_command h cmd1 None w))"

definition compile_rb ::
  "host \<Rightarrow> string \<Rightarrow> string \<Rightarrow> world \<Rightarrow> (error + bool \<times> string) \<times> world" where
  "compile_rb h src out w = run_command h [''ocra'', src, ''--output'', out] None w"

text \<open>\<open>Compiler.compile\<close>: the table of strategies, and the answer for a type it lacks.\<close>

definition compile ::
  "host \<Rightarrow> string \<Rightarrow> string \<Rightarrow> string \<Rightarrow> string option \<Rightarrow> bool \<Rightarrow> bool \<Rightarrow> bool
     \<Rightarrow> (string \<rightharpoonup> string) option \<Rightarrow> world \<Rightarrow> (error + bool \<times> string) \<times> world" where
  "compile h src out file_type icon admin console single_file metadata w =
     (if file_type = ''ps1'' then compile_ps1 h src out icon admin (\<not> console) metadata w
      else if file_type = ''py'' then compile_py h src out icon single_file console w
      else if file_type = ''bat'' then compile_batch h src out w
      else if file_type = ''cmd'' then compile_batch h src out w
      else if file_type = ''js'' then compile_js h src out w
      else if file_type = ''vbs'' then compile_batch h src out w
      else if file_type = ''ahk'' then compile_ahk h src out icon w
      else if file_type = ''cs'' then compile_cs h src out w
      else if file_type = ''go'' then compile_go h src out w
      else if file_type = ''rb'' then compile_rb h src out w
      else (Inr (False, ''Unsupported file type: '' @ file_type), w))"

section \<open>A sample host\<close>

text \<open>
  The path functions of a POSIX platform, for running the model on concrete inputs:
  \<open>posixpath.basename\<close> is what follows the last slash, \<open>posixpath.dirname\<close> what precedes
  it without its trailing slashes (unless it is slashes only), \<open>posixpath.splitext\<close>
  splits the last component at its last dot when a character other than a dot comes
  before it, \<open>posixpath.join\<close> restarts at an absolute second part.
\<close>

definition posix_basename :: "string \<Rightarrow> string" where
  "posix_basename p = rev (takeWhile (\<lambda>c. c \<noteq> CHR ''/'') (rev p))"

definition posix_dirname :: "string \<Rightarrow> string" where
  "posix_dirname p =
     (let hd0 = rev (dropWhile (\<lambda>c. c \<noteq> CHR ''/'') (rev p))
      in if hd0 \<noteq> [] \<and> (\<exists>c \<in> set hd0. c \<noteq> CHR ''/'')
         then rev (dropWhile (\<lambda>c. c = CHR ''/'') (rev hd0)) else hd0)"

definition posix_splitext :: "string \<Rightarrow> string \<times> string" where
  "posix_splitext p =
     (let name = posix_basename p;
          ext = rev (takeWhile (\<lambda>c. c \<noteq> CHR ''.'') (rev name));
          stem = take (length name - length ext - 1) name
      in if CHR ''.'' \<in> set name \<and> (\<exists>c \<in> set stem. c \<noteq> CHR ''.'')
         then (take (length p - length ext - 1) p, CHR ''.'' # ext) else (p, []))"

definition posix_join :: "string \<Rightarrow> string \<Rightarrow> string" where
  "posix_join a b =
     (if b \<noteq> [] \<and> hd b = CHR ''/'' then b
      else if a = [] \<or> last a = CHR ''/'' then a @ b
      else a @ ''/'' @ b)"

text \<open>
  A host with no tool installed: nothing is on the search path, no variable is set,
  every attempt to start a process fails for want of the executable; temporary
  directories, copies, writes and removals work.
\<close>

definition bare_host :: host where
  "bare_host =
     \<lparr>which = (\<lambda>_. None),
      environ = Map.empty,
      path_join = posix_join,
      path_div = posix_join,
      dirname = posix_dirname,
      basename = posix_basename,
      splitext = posix_splitext,
      seps = ''/'',
      mkdtemp = (\<lambda>_. Inr ''/tmp/tmpk3x9''),
      no_such_file = (\<lambda>p. ''[Errno 2] No such file or directory: '' @ sq @ p @ sq),
      copy_fault = (\<lambda>_ _. None),
      write_fault = (\<lambda>_. None),
      probe_denied = (\<lambda>_. None),
      rmtree_fails = (\<lambda>_. False),
      proc = (\<lambda>cmd _ _. Spawn_failed (''[Errno 2] No such file or directory: ''
                @ sq @ (case cmd of [] \<Rightarrow> [] | c # _ \<Rightarrow> c) @ sq))\<rparr>"

text \<open>A host whose packager runs and exits with status 0, and where removing a tree fails.\<close>

definition locked_host :: host where
  "locked_host =
     bare_host\<lparr>rmtree_fails := (\<lambda>_. True),
               proc := (\<lambda>_ _ f. Completed \<lparr>returncode = 0, stdout = ''done'', stderr = []\<rparr> f)\<rparr>"

text \<open>
  A host whose process runs, exits with status 0 and prints a byte that is not UTF-8.
\<close>

definition garbled_host :: host where
  "garbled_host =
     bare_host\<lparr>proc := (\<lambda>_ _ f. Undecodable 0
       (sq @ ''utf-8'' @ sq @ '' codec can'' @ sq
          @ ''t decode byte 0xff in position 0: invalid start byte'') f)\<rparr>"

text \<open>A world holding one source file and one icon, where nothing was started yet.\<close>

definition sample_world :: world where
  "sample_world = \<lparr>fs = [''/src/run.bat'' \<mapsto> 120, ''/src/app.ico'' \<mapsto> 300], spawned = []\<rparr>"

section \<open>Size estimation\<close>

subsection \<open>Python's floats\<close>

text \<open>
  A Python float is an IEEE 754 double: a rational number with a 53-bit significand.
  Every operation computes the exact result and rounds it to the nearest double, a tie
  to the even significand. The range of the exponent is left unlimited here: no number
  the program forms from the size of a file comes near an overflow or an underflow, and
  infinities and NaN never arise.
\<close>

text \<open>The nearest integer, a tie to the even one.\<close>

definition half_even :: "rat \<Rightarrow> int" where
  "half_even x =
     (let f = \<lfloor>x\<rfloor>; d = x - of_int f
      in if d < 1 / 2 then f else if 1 / 2 < d then f + 1 else if even f then f else f + 1)"

text \<open>\<open>ilog2 n\<close> is the position of the highest bit of \<open>n\<close>: \<open>2 ^ ilog2 n \<le> n < 2 ^ (ilog2 n + 1)\<close>.\<close>

fun ilog2 :: "nat \<Rightarrow> nat" where
  "ilog2 n = (if n < 2 then 0 else Suc (ilog2 (n div 2)))"

declare ilog2.simps [simp del]

definition pow2 :: "int \<Rightarrow> rat" where
  "pow2 e = (if 0 \<le> e then 2 ^ nat e else 1 / 2 ^ nat (- e))"

text \<open>The exponent \<open>e\<close> of a positive number: \<open>pow2 e \<le> x < pow2 (e + 1)\<close>.\<close>

definition binade :: "rat \<Rightarrow> int" where
  "binade x =
     (if 1 \<le> x then int (ilog2 (nat \<lfloor>x\<rfloor>))
      else - int (ilog2 (nat (\<lceil>1 / x\<rceil> - 1)) + 1))"

text \<open>Rounding to the nearest double: 53 significant bits at the exponent of the number.\<close>

definition round_double :: "rat \<Rightarrow> rat" where
  "round_double x =
     (if x = 0 then 0
      else (let a = \<bar>x\<bar>; u = pow2 (binade a - 52); y = of_int (half_even (a / u)) * u
            in if x < 0 then - y else y))"

text \<open>
  The float of a decimal literal with the digits \<open>m\<close>, the last \<open>k\<close> of them after the point
  (\<open>1.5\<close> is \<open>float_literal 15 1\<close>); the conversion of an integer; product and sum; \<open>int(x)\<close>,
  which truncates towards zero; the true division \<open>a / b\<close> of two integers, which is
  correctly rounded; and the format \<open>.1f\<close>, which rounds the exact value of the float to
  tenths, a tie to the even tenth.
\<close>

definition float_literal :: "int \<Rightarrow> nat \<Rightarrow> rat" where
  "float_literal m k = round_double (of_int m / 10 ^ k)"

definition float_of_int :: "int \<Rightarrow> rat" where
  "float_of_int a = round_double (of_int a)"

definition float_mul :: "rat \<Rightarrow> rat \<Rightarrow> rat" where
  "float_mul x y = round_double (x * y)"

definition float_add :: "rat \<Rightarrow> rat \<Rightarrow> rat" where
  "float_add x y = round_double (x + y)"

definition float_trunc :: "rat \<Rightarrow> int" where
  "float_trunc x = (if x < 0 then - \<lfloor>- x\<rfloor> else \<lfloor>x\<rfloor>)"

definition true_div :: "int \<Rightarrow> int \<Rightarrow> rat" where
  "true_div a b = round_double (of_int a / of_int b)"

text \<open>\<open>str\<close> of an integer.\<close>

fun str_nat :: "nat \<Rightarrow> string" where
  "str_nat n =
     (if n < 10 then [''0123456789'' ! n] else str_nat (n div 10) @ [''0123456789'' ! (n mod 10)])"

declare str_nat.simps [simp del]

definition str_int :: "int \<Rightarrow> string" where
  "str_int i = (if i < 0 then ''-'' @ str_nat (nat (- i)) else str_nat (nat i))"

definition format_1f :: "rat \<Rightarrow> string" where
  "format_1f x =
     (let t = half_even (\<bar>x\<bar> * 10)
      in (if x < 0 then ''-'' else []) @ str_int (t div 10) @ ''.'' @ str_int (t mod 10))"

subsection \<open>The estimate\<close>

text \<open>
  A number is an integer or a float, and an operation on an integer and a float is the
  float operation on the converted integer.
\<close>

datatype number = PyInt int | PyFloat rat

text \<open>\<open>a * x\<close>, \<open>a + x\<close> for an integer \<open>a\<close>, and \<open>int(x)\<close>.\<close>

fun int_times :: "int \<Rightarrow> number \<Rightarrow> number" where
  "int_times a (PyInt m) = PyInt (a * m)"
| "int_times a (PyFloat x) = PyFloat (float_mul (float_of_int a) x)"

fun int_plus :: "int \<Rightarrow> number \<Rightarrow> number" where
  "int_plus a (PyInt m) = PyInt (a + m)"
| "int_plus a (PyFloat x) = PyFloat (float_add (float_of_int a) x)"

fun py_int :: "number \<Rightarrow> int" where
  "py_int (PyInt m) = m"
| "py_int (PyFloat x) = float_trunc x"

definition format_size :: "int \<Rightarrow> string" where
  "format_size sz =
     (if sz \<ge> 1073741824 then format_1f (true_div sz 1073741824) @ '' GB''
      else if sz \<ge> 1048576 then format_1f (true_div sz 1048576) @ '' MB''
      else if sz \<ge> 1024 then format_1f (true_div sz 1024) @ '' KB''
      else str_int sz @ '' bytes'')"

text \<open>The table of \<open>estimate_output_size\<close>: the base in bytes and the multiplier.\<close>

definition estimates :: "string \<rightharpoonup> int \<times> number" where
  "estimates =
     [''ps1'' \<mapsto> (5 * 1024 * 1024, PyFloat (float_literal 15 1)),
      ''py'' \<mapsto> (15 * 1024 * 1024, PyInt 2),
      ''bat'' \<mapsto> (50 * 1024, PyFloat (float_literal 12 1)),
      ''cmd'' \<mapsto> (50 * 1024, PyFloat (float_literal 12 1)),
      ''js'' \<mapsto> (40 * 1024 * 1024, PyFloat (float_literal 15 1)),
      ''vbs'' \<mapsto> (50 * 1024, PyFloat (float_literal 12 1)),
      ''ahk'' \<mapsto> (1 * 1024 * 1024, PyFloat (float_literal 13 1)),
      ''cs'' \<mapsto> (10 * 1024, PyFloat (float_literal 11 1)),
      ''go'' \<mapsto> (2 * 1024 * 1024, PyFloat (float_literal 12 1)),
      ''rb'' \<mapsto> (20 * 1024 * 1024, PyInt 2)]"

definition estimate_output_size :: "world \<Rightarrow> string \<Rightarrow> string \<Rightarrow> string" where
  "estimate_output_size w source_file file_type =
     (case fs w source_file of
        None \<Rightarrow> ''Unknown''
      | Some n \<Rightarrow>
          (let source_size = int n
           in case estimates file_type of
                Some (base, multiplier) \<Rightarrow>
                  format_size (py_int (int_plus base (int_times source_size multiplier)))
              | None \<Rightarrow> ''Unknown''))"

section \<open>Properties of \<open>run_command\<close>\<close>

lemma run_command_spawned:
  "spawned (snd (run_command h cmd cwd w)) = spawned w @ [(cmd, cwd)]"
  by (auto simp: run_command_def subprocess_run_def Let_def
      split: proc_outcome.splits error.splits sum.splits prod.splits)

lemma run_command_fst:
  "fst (run_command h cmd cwd w) =
     (case proc h cmd cwd (fs w) of
        Spawn_failed msg \<Rightarrow> Inr (False, msg)
      | Completed r f \<Rightarrow> Inr (returncode r = 0, stdout r @ stderr r)
      | Undecodable rc msg f \<Rightarrow> Inr (False, msg))"
  by (auto simp: run_command_def subprocess_run_def Let_def
      split: proc_outcome.splits error.splits sum.splits prod.splits)

text \<open>
  Claim C3, as stated, fails: a process that runs and exits with status zero, and whose
  output is not valid text, makes \<open>subprocess.run\<close> raise when it decodes the output;
  \<open>run_command\<close> catches that and returns \<open>False\<close> with the text of the exception, so an
  exit status of zero does not make the result a success.
\<close>

theorem run_command_result_counterexample:
  "exit_status (proc garbled_host [''pkg'', ''/src/app.js''] None (fs sample_world)) = Some 0
   \<and> fst (run_command garbled_host [''pkg'', ''/src/app.js''] None sample_world) =
       Inr (False, sq @ ''utf-8'' @ sq @ '' codec can'' @ sq
              @ ''t decode byte 0xff in position 0: invalid start byte'')"
  by (simp add: run_command_def subprocess_run_def Let_def garbled_host_def bare_host_def)


section \<open>Properties of the dispatch\<close>

lemma compile_dispatch:
  "compile h src out ''ps1'' icon admin console single_file metadata w =
     compile_ps1 h src out icon admin (\<not> console) metadata w"
  "compile h src out ''py'' icon admin console single_file metadata w =
     compile_py h src out icon single_file console w"
  "compile h src out ''bat'' icon admin console single_file metadata w = compile_batch h src out w"
  "compile h src out ''cmd'' icon admin console single_file metadata w = compile_batch h src out w"
  "compile h src out ''js'' icon admin console single_file metadata w = compile_js h src out w"
  "compile h src out ''vbs'' icon admin console single_file metadata w = compile_batch h src out w"
  "compile h src out ''ahk'' icon admin console single_file metadata w = compile_ahk h src out icon w"
  "compile h src out ''cs'' icon admin console single_file metadata w = compile_cs h src out w"
  "compile h src out ''go'' icon admin console single_file metadata w = compile_go h src out w"
  "compile h src out ''rb'' icon admin console single_file metadata w = compile_rb h src out w"
  by (simp_all add: compile_def)

text \<open>
  Claim C2. For every file type outside the ten supported ones, \<open>Compiler.compile\<close>
  returns \<open>False\<close> with the text \<open>Unsupported file type: \<close> followed by the type, and
  leaves the state as it was: no process is started.
\<close>

theorem compile_unsupported_type:
  assumes "file_type \<notin> {''ps1'', ''py'', ''bat'', ''cmd'', ''js'', ''vbs'', ''ahk'', ''cs'', ''go'', ''rb''}"
  shows "compile h src out file_type icon admin console single_file metadata w =
           (Inr (False, ''Unsupported file type: '' @ file_type), w)
         \<and> spawned (snd (compile h src out file_type icon admin console single_file metadata w)) =
             spawned w"
  using assms by (simp add: compile_def)

theorem compile_unsupported_type_witness:
  "''txt'' \<notin> {''ps1'', ''py'', ''bat'', ''cmd'', ''js'', ''vbs'', ''ahk'', ''cs'', ''go'', ''rb''}
   \<and> compile bare_host ''/src/notes.txt'' ''/out/notes.exe'' ''txt'' None False False True None
        sample_world = (Inr (False, ''Unsupported file type: txt''), sample_world)"
proof -
  have a: "''txt'' \<notin> {''ps1'', ''py'', ''bat'', ''cmd'', ''js'', ''vbs'', ''ahk'', ''cs'', ''go'', ''rb''}"
    by simp
  from compile_unsupported_type [OF a, of bare_host "''/src/notes.txt''" "''/out/notes.exe''"
      None False False True None sample_world]
  show ?thesis using a by simp
qed

section \<open>A missing tool\<close>

lemma first_existing_none:
  "\<forall>p \<in> set ps. pathlib_exists h w p = Inr False \<Longrightarrow> first_existing h w ps = Inr None"
  by (induction ps) simp_all

lemma find_none_not_truthy: "\<forall>p \<in> set ps. \<not> P p \<Longrightarrow> \<not> truthy (find P ps)"
  by (simp add: truthy_def find_None_iff[THEN iffD2])

lemma compile_batch_steps:
  assumes "mkdtemp h (fs w) = Inr d"
    and "shutil_copy h src (path_join h d (basename h src)) ((fs w)(d \<mapsto> 0)) = Inr f1"
    and "write_text h (path_join h d ''config.sed'') (sed_content out (basename h src) d) f1 = Inr f2"
  shows "compile_batch h src out w =
     (fst (run_command h
             [join_all h (environ_get h ''WINDIR'' (''C:'' @ backslash @ ''Windows''))
                [''System32'', ''iexpress.exe''],
              ''/N'', ''/Q'', path_join h d ''config.sed''] None (w\<lparr>fs := f2\<rparr>)),
      rmtree h d (snd (run_command h
             [join_all h (environ_get h ''WINDIR'' (''C:'' @ backslash @ ''Windows''))
                [''System32'', ''iexpress.exe''],
              ''/N'', ''/Q'', path_join h d ''config.sed''] None (w\<lparr>fs := f2\<rparr>))))"
  using assms by (simp add: compile_batch_def compile_batch_try_def Let_def)

lemma compile_batch_returns:
  assumes "fst (compile_batch h src out w) = Inr res"
  shows "\<exists>d f1 f2. mkdtemp h (fs w) = Inr d
     \<and> shutil_copy h src (path_join h d (basename h src)) ((fs w)(d \<mapsto> 0)) = Inr f1
     \<and> write_text h (path_join h d ''config.sed'') (sed_content out (basename h src) d) f1 = Inr f2"
  using assms
  by (auto simp: compile_batch_def compile_batch_try_def Let_def split: sum.splits)

text \<open>
  Claim C1, as stated, fails: on a host where \<open>pyinstaller\<close> is nowhere on the search
  path, compiling a Python script attempts to start \<open>pyinstaller\<close>, and the failed result
  carries the text of the exception that the attempt raised.
\<close>

theorem compile_tool_missing_counterexample:
  "which bare_host ''pyinstaller'' = None
   \<and> compile bare_host ''/src/app.py'' ''/out/app.exe'' ''py'' None False False True None
        \<lparr>fs = [''/src/app.py'' \<mapsto> 10], spawned = []\<rparr>
      = (Inr (False, ''[Errno 2] No such file or directory: '' @ sq @ ''pyinstaller'' @ sq),
         \<lparr>fs = [''/src/app.py'' \<mapsto> 10],
          spawned = [([''pyinstaller'', ''--distpath'', ''/out'', ''--name'', ''app'',
                       ''--noconfirm'', ''--onefile'', ''--noconsole'', ''/src/app.py''], None)]\<rparr>)"
  by (simp add: compile_def compile_py_def Let_def run_command_def subprocess_run_def
      bare_host_def icon_usable_def posix_dirname_def posix_basename_def posix_splitext_def)

text \<open>
  Claim C1, amended. For C#, Go and AutoHotkey sources, when the compiler is at none of
  the places \<open>compile\<close> searches (each look answering that nothing is there), \<open>compile\<close>
  returns \<open>False\<close> with a text naming the compiler and leaves the state as it was, so no
  process is started. For Python, Node.js, Ruby and PowerShell sources there is no check:
  \<open>compile\<close> is \<open>run_command\<close> on the command of the tool, named by its bare name. For
  batch, command and VBScript sources there is no check either: once the workspace is
  made, the source copied and the directive file written, \<open>compile\<close> is \<open>run_command\<close> on
  the packager at its fixed path, followed by the removal of the workspace, and every
  result \<open>compile\<close> returns comes from there. \<open>run_command\<close> records the attempt to start
  the command and returns the outcome of that attempt: a missing tool shows as the
  failed start, \<open>False\<close> with the text of the exception.
\<close>

theorem compile_tool_missing:
  "((\<forall>p \<in> set (csc_paths h). \<not> path_exists w p) \<longrightarrow>
      compile h src out ''cs'' icon admin console single_file metadata w =
        (Inr (False, ''CSC compiler not found''), w))
   \<and> (\<not> truthy (which h ''go'') \<and> pathlib_exists h w (go_path h) = Inr False \<longrightarrow>
      compile h src out ''go'' icon admin console single_file metadata w =
        (Inr (False, ''Go compiler not found''), w))
   \<and> ((\<forall>p \<in> set (ahk_paths h). pathlib_exists h w p = Inr False) \<longrightarrow>
      compile h src out ''ahk'' icon admin console single_file metadata w =
        (Inr (False, ''AutoHotkey compiler not found''), w))
   \<and> compile h src out ''py'' icon admin console single_file metadata w =
       run_command h
         ([''pyinstaller'', ''--distpath'', dirname h out, ''--name'',
           fst (splitext h (basename h out)), ''--noconfirm'']
          @ (if single_file then [''--onefile''] else [])
          @ (if console then [] else [''--noconsole''])
          @ (case icon of
               Some i \<Rightarrow> if i \<noteq> [] \<and> fs w i \<noteq> None then [''--icon'', i] else []
             | None \<Rightarrow> [])
          @ [src]) None w
   \<and> compile h src out ''js'' icon admin console single_file metadata w =
       run_command h [''pkg'', src, ''--target'', ''node18-win-x64'', ''--output'', out] None w
   \<and> compile h src out ''rb'' icon admin console single_file metadata w =
       run_command h [''ocra'', src, ''--output'', out] None w
   \<and> compile h src out ''ps1'' icon admin console single_file metadata w =
       run_command h
         [''powershell'', ''-ExecutionPolicy'', ''Bypass'', ''-Command'',
          ''Invoke-PS2EXE -InputFile '' @ dq @ src @ dq @ '' -OutputFile '' @ dq @ out @ dq
          @ (case icon of
               Some i \<Rightarrow> if i \<noteq> [] \<and> fs w i \<noteq> None then '' -IconFile '' @ dq @ i @ dq else []
             | None \<Rightarrow> [])
          @ (if admin then '' -RequireAdmin'' else [])
          @ (if console then [] else '' -NoConsole'')
          @ (case metadata of
               None \<Rightarrow> []
             | Some m \<Rightarrow> meta_flag m ''product'' ''-Title'' @ meta_flag m ''version'' ''-Version''
                 @ meta_flag m ''company'' ''-Company'' @ meta_flag m ''copyright'' ''-Copyright'')]
         None w
   \<and> (file_type \<in> {''bat'', ''cmd'', ''vbs''} \<longrightarrow>
        (\<forall>d f1 f2.
           mkdtemp h (fs w) = Inr d
           \<and> shutil_copy h src (path_join h d (basename h src)) ((fs w)(d \<mapsto> 0)) = Inr f1
           \<and> write_text h (path_join h d ''config.sed'') (sed_content out (basename h src) d) f1
               = Inr f2 \<longrightarrow>
           compile h src out file_type icon admin console single_file metadata w =
             (fst (run_command h
                     [join_all h (environ_get h ''WINDIR'' (''C:'' @ backslash @ ''Windows''))
                        [''System32'', ''iexpress.exe''],
                      ''/N'', ''/Q'', path_join h d ''config.sed''] None (w\<lparr>fs := f2\<rparr>)),
              rmtree h d (snd (run_command h
                     [join_all h (environ_get h ''WINDIR'' (''C:'' @ backslash @ ''Windows''))
                        [''System32'', ''iexpress.exe''],
                      ''/N'', ''/Q'', path_join h d ''config.sed''] None (w\<lparr>fs := f2\<rparr>)))))
        \<and> (\<forall>res. fst (compile h src out file_type icon admin console single_file metadata w)
                   = Inr res \<longrightarrow>
             (\<exists>d f1 f2.
                mkdtemp h (fs w) = Inr d
                \<and> shutil_copy h src (path_join h d (basename h src)) ((fs w)(d \<mapsto> 0)) = Inr f1
                \<and> write_text h (path_join h d ''config.sed'')
                     (sed_content out (basename h src) d) f1 = Inr f2)))
   \<and> spawned (snd (run_command h cmd cwd w)) = spawned w @ [(cmd, cwd)]
   \<and> fst (run_command h cmd cwd w) =
       (case proc h cmd cwd (fs w) of
          Spawn_failed msg \<Rightarrow> Inr (False, msg)
        | Completed r f \<Rightarrow> Inr (returncode r = 0, stdout r @ stderr r)
        | Undecodable rc msg f \<Rightarrow> Inr (False, msg))"
  (is "?CS \<and> ?GO \<and> ?AHK \<and> ?PY \<and> ?JS \<and> ?RB \<and> ?PS \<and> ?BATCH \<and> ?LOG \<and> ?RES")
proof -
  have cs: ?CS
  proof
    assume a: "\<forall>p \<in> set (csc_paths h). \<not> path_exists w p"
    show "compile h src out ''cs'' icon admin console single_file metadata w =
        (Inr (False, ''CSC compiler not found''), w)"
      using find_none_not_truthy [OF a] by (simp add: compile_dispatch compile_cs_def Let_def)
  qed
  have go: ?GO
    by (simp add: compile_dispatch compile_go_def Let_def)
  have ahk: ?AHK
  proof
    assume a: "\<forall>p \<in> set (ahk_paths h). pathlib_exists h w p = Inr False"
    show "compile h src out ''ahk'' icon admin console single_file metadata w =
        (Inr (False, ''AutoHotkey compiler not found''), w)"
      using first_existing_none [OF a]
      by (simp add: compile_dispatch compile_ahk_def truthy_def)
  qed
  have py: ?PY
    by (cases icon)
      (simp_all add: compile_dispatch compile_py_def Let_def icon_usable_def path_exists_def)
  have js: ?JS
    by (simp add: compile_dispatch compile_js_def)
  have rb: ?RB
    by (simp add: compile_dispatch compile_rb_def)
  have ps: ?PS
    by (cases icon; cases metadata)
      (simp_all add: compile_dispatch compile_ps1_def Let_def icon_usable_def path_exists_def)
  have batch: ?BATCH
  proof
    assume t: "file_type \<in> {''bat'', ''cmd'', ''vbs''}"
    then consider "file_type = ''bat''" | "file_type = ''cmd''" | "file_type = ''vbs''" by blast
    then have c: "compile h src out file_type icon admin console single_file metadata w =
        compile_batch h src out w"
      by cases (simp_all only: compile_dispatch)
    show "(\<forall>d f1 f2.
           mkdtemp h (fs w) = Inr d
           \<and> shutil_copy h src (path_join h d (basename h src)) ((fs w)(d \<mapsto> 0)) = Inr f1
           \<and> write_text h (path_join h d ''config.sed'') (sed_content out (basename h src) d) f1
               = Inr f2 \<longrightarrow>
           compile h src out file_type icon admin console single_file metadata w =
             (fst (run_command h
                     [join_all h (environ_get h ''WINDIR'' (''C:'' @ backslash @ ''Windows''))
                        [''System32'', ''iexpress.exe''],
                      ''/N'', ''/Q'', path_join h d ''config.sed''] None (w\<lparr>fs := f2\<rparr>)),
              rmtree h d (snd (run_command h
                     [join_all h (environ_get h ''WINDIR'' (''C:'' @ backslash @ ''Windows''))
                        [''System32'', ''iexpress.exe''],
                      ''/N'', ''/Q'', path_join h d ''config.sed''] None (w\<lparr>fs := f2\<rparr>)))))
        \<and> (\<forall>res. fst (compile h src out file_type icon admin console single_file metadata w)
                   = Inr res \<longrightarrow>
             (\<exists>d f1 f2.
                mkdtemp h (fs w) = Inr d
                \<and> shutil_copy h src (path_join h d (basename h src)) ((fs w)(d \<mapsto> 0)) = Inr f1
                \<and> write_text h (path_join h d ''config.sed'')
                     (sed_content out (basename h src) d) f1 = Inr f2))"
      unfolding c
    proof (intro conjI allI impI)
      fix d f1 f2
      assume H: "mkdtemp h (fs w) = Inr d
           \<and> shutil_copy h src (path_join h d (basename h src)) ((fs w)(d \<mapsto> 0)) = Inr f1
           \<and> write_text h (path_join h d ''config.sed'') (sed_content out (basename h src) d) f1
               = Inr f2"
      show "compile_batch h src out w =
             (fst (run_command h
                     [join_all h (environ_get h ''WINDIR'' (''C:'' @ backslash @ ''Windows''))
                        [''System32'', ''iexpress.exe''],
                      ''/N'', ''/Q'', path_join h d ''config.sed''] None (w\<lparr>fs := f2\<rparr>)),
              rmtree h d (snd (run_command h
                     [join_all h (environ_get h ''WINDIR'' (''C:'' @ backslash @ ''Windows''))
                        [''System32'', ''iexpress.exe''],
                      ''/N'', ''/Q'', path_join h d ''config.sed''] None (w\<lparr>fs := f2\<rparr>))))"
        by (rule compile_batch_steps [OF H [THEN conjunct1] H [THEN conjunct2, THEN conjunct1]
              H [THEN conjunct2, THEN conjunct2]])
    next
      fix res
      assume "fst (compile_batch h src out w) = Inr res"
      then show "\<exists>d f1 f2.
                mkdtemp h (fs w) = Inr d
                \<and> shutil_copy h src (path_join h d (basename h src)) ((fs w)(d \<mapsto> 0)) = Inr f1
                \<and> write_text h (path_join h d ''config.sed'')
                     (sed_content out (basename h src) d) f1 = Inr f2"
        by (rule compile_batch_returns)
    qed
  qed
  have log: ?LOG by (rule run_command_spawned)
  have res: ?RES by (rule run_command_fst)
  from cs go ahk py js rb ps batch log res show ?thesis by (intro conjI)
qed

theorem compile_tool_missing_witness:
  "find (path_exists sample_world) (csc_paths bare_host) = None
   \<and> \<not> truthy (which bare_host ''go'')
   \<and> pathlib_exists bare_host sample_world (go_path bare_host) = Inr False
   \<and> first_existing bare_host sample_world (ahk_paths bare_host) = Inr None
   \<and> compile bare_host ''/src/a.cs'' ''/out/a.exe'' ''cs'' None False False True None sample_world
       = (Inr (False, ''CSC compiler not found''), sample_world)
   \<and> compile bare_host ''/src/a.cs'' ''/out/a.exe'' ''go'' None False False True None sample_world
       = (Inr (False, ''Go compiler not found''), sample_world)
   \<and> compile bare_host ''/src/a.cs'' ''/out/a.exe'' ''ahk'' None False False True None sample_world
       = (Inr (False, ''AutoHotkey compiler not found''), sample_world)
   \<and> mkdtemp locked_host (fs sample_world) = Inr ''/tmp/tmpk3x9''
   \<and> shutil_copy locked_host ''/src/run.bat''
         (path_join locked_host ''/tmp/tmpk3x9'' (basename locked_host ''/src/run.bat''))
         ((fs sample_world)(''/tmp/tmpk3x9'' \<mapsto> 0))
       = Inr ((fs sample_world)(''/tmp/tmpk3x9'' \<mapsto> 0, ''/tmp/tmpk3x9/run.bat'' \<mapsto> 120))
   \<and> write_text locked_host (path_join locked_host ''/tmp/tmpk3x9'' ''config.sed'')
         (sed_content ''/out/run.exe'' (basename locked_host ''/src/run.bat'') ''/tmp/tmpk3x9'')
         ((fs sample_world)(''/tmp/tmpk3x9'' \<mapsto> 0, ''/tmp/tmpk3x9/run.bat'' \<mapsto> 120))
       = Inr ((fs sample_world)(''/tmp/tmpk3x9'' \<mapsto> 0, ''/tmp/tmpk3x9/run.bat'' \<mapsto> 120,
                path_join locked_host ''/tmp/tmpk3x9'' ''config.sed'' \<mapsto>
                  length (sed_content ''/out/run.exe'' (basename locked_host ''/src/run.bat'')
                     ''/tmp/tmpk3x9'')))
   \<and> fst (compile locked_host ''/src/run.bat'' ''/out/run.exe'' ''bat'' None False False True None
          sample_world) = Inr (True, ''done'')
   \<and> spawned (snd (compile locked_host ''/src/run.bat'' ''/out/run.exe'' ''bat'' None False False
          True None sample_world)) =
       [([join_all locked_host (environ_get locked_host ''WINDIR'' (''C:'' @ backslash @ ''Windows''))
            [''System32'', ''iexpress.exe''],
          ''/N'', ''/Q'', path_join locked_host ''/tmp/tmpk3x9'' ''config.sed''], None)]"
proof -
  let ?c = "\<lambda>t. compile bare_host ''/src/a.cs'' ''/out/a.exe'' t None False False True None sample_world"
  let ?b = "compile locked_host ''/src/run.bat'' ''/out/run.exe'' ''bat'' None False False True None
      sample_world"
  let ?f1 = "(fs sample_world)(''/tmp/tmpk3x9'' \<mapsto> 0, ''/tmp/tmpk3x9/run.bat'' \<mapsto> 120)"
  let ?f2 = "(fs sample_world)(''/tmp/tmpk3x9'' \<mapsto> 0, ''/tmp/tmpk3x9/run.bat'' \<mapsto> 120,
                path_join locked_host ''/tmp/tmpk3x9'' ''config.sed'' \<mapsto>
                  length (sed_content ''/out/run.exe'' (basename locked_host ''/src/run.bat'')
                     ''/tmp/tmpk3x9''))"
  let ?cmd = "[join_all locked_host (environ_get locked_host ''WINDIR'' (''C:'' @ backslash @ ''Windows''))
            [''System32'', ''iexpress.exe''],
          ''/N'', ''/Q'', path_join locked_host ''/tmp/tmpk3x9'' ''config.sed'']"
  have a: "\<forall>p \<in> set (csc_paths bare_host). \<not> path_exists sample_world p"
    by (simp add: csc_paths_def bare_host_def environ_get_def join_all_def posix_join_def
        sample_world_def path_exists_def backslash_def)
  have b1: "\<not> truthy (which bare_host ''go'')"
    by (simp add: bare_host_def truthy_def)
  have b2: "pathlib_exists bare_host sample_world (go_path bare_host) = Inr False"
    by (simp add: pathlib_exists_def go_path_def bare_host_def environ_get_def posix_join_def
        sample_world_def path_exists_def)
  have c: "\<forall>p \<in> set (ahk_paths bare_host). pathlib_exists bare_host sample_world p = Inr False"
    by (simp add: pathlib_exists_def ahk_paths_def bare_host_def environ_get_def posix_join_def
        sample_world_def path_exists_def)
  have e: "''bat'' \<in> {''bat'', ''cmd'', ''vbs''}" by simp
  have m: "mkdtemp locked_host (fs sample_world) = Inr ''/tmp/tmpk3x9''"
    by (simp add: locked_host_def bare_host_def)
  have cp: "shutil_copy locked_host ''/src/run.bat''
         (path_join locked_host ''/tmp/tmpk3x9'' (basename locked_host ''/src/run.bat''))
         ((fs sample_world)(''/tmp/tmpk3x9'' \<mapsto> 0)) = Inr ?f1"
    by (simp add: shutil_copy_def locked_host_def bare_host_def sample_world_def
        posix_basename_def posix_join_def)
  have wr: "write_text locked_host (path_join locked_host ''/tmp/tmpk3x9'' ''config.sed'')
         (sed_content ''/out/run.exe'' (basename locked_host ''/src/run.bat'') ''/tmp/tmpk3x9'') ?f1
       = Inr ?f2"
    by (simp add: write_text_def locked_host_def bare_host_def)
  note t = compile_tool_missing [of bare_host sample_world "''/src/a.cs''" "''/out/a.exe''"
      None False False True None "''bat''" "[]" None]
  note u = compile_tool_missing [of locked_host sample_world "''/src/run.bat''" "''/out/run.exe''"
      None False False True None "''bat''" "[]" None]
  have 1: "?c ''cs'' = (Inr (False, ''CSC compiler not found''), sample_world)"
    by (rule t [THEN conjunct1, THEN mp, OF a])
  have 2: "?c ''go'' = (Inr (False, ''Go compiler not found''), sample_world)"
    by (rule t [THEN conjunct2, THEN conjunct1, THEN mp, OF conjI, OF b1 b2])
  have 3: "?c ''ahk'' = (Inr (False, ''AutoHotkey compiler not found''), sample_world)"
    by (rule t [THEN conjunct2, THEN conjunct2, THEN conjunct1, THEN mp, OF c])
  have 4: "?b = (fst (run_command locked_host ?cmd None (sample_world\<lparr>fs := ?f2\<rparr>)),
                rmtree locked_host ''/tmp/tmpk3x9''
                  (snd (run_command locked_host ?cmd None (sample_world\<lparr>fs := ?f2\<rparr>))))"
    by (rule u [THEN conjunct2, THEN conjunct2, THEN conjunct2, THEN conjunct2, THEN conjunct2,
          THEN conjunct2, THEN conjunct2, THEN conjunct1, THEN mp, OF e, THEN conjunct1,
          THEN spec, THEN spec, THEN spec, THEN mp, OF conjI, OF m conjI, OF cp wr])
  have 5: "fst ?b = Inr (True, ''done'')"
    unfolding 4 by (simp add: run_command_fst) (simp add: locked_host_def)
  have 6: "spawned (snd ?b) = [(?cmd, None)]"
    unfolding 4 by (simp add: run_command_spawned rmtree_def) (simp add: sample_world_def)
  from a have a': "find (path_exists sample_world) (csc_paths bare_host) = None"
    by (auto simp: find_None_iff)
  have c': "first_existing bare_host sample_world (ahk_paths bare_host) = Inr None"
    by (rule first_existing_none [OF c])
  show ?thesis by (intro conjI) (rule a' b1 b2 c' 1 2 3 m cp wr 5 6)+
qed


section \<open>The Python strategy\<close>

text \<open>
  Claim C6. For every Python build request, one command is started, and it is:
  \<open>pyinstaller\<close>, \<open>--distpath\<close> with the directory of the requested output path, \<open>--name\<close>
  with its base name without the extension, \<open>--noconfirm\<close>; then \<open>--onefile\<close> exactly when
  \<open>single_file\<close> is true; then \<open>--noconsole\<close> exactly when \<open>console\<close> is false; then
  \<open>--icon\<close> and the icon path exactly when an icon path is given, is not empty and exists;
  then the source.
\<close>

theorem compile_py_argument_vector:
  "spawned (snd (compile h src out ''py'' icon admin console single_file metadata w)) =
     spawned w @
       [([''pyinstaller'', ''--distpath'', dirname h out, ''--name'',
          fst (splitext h (basename h out)), ''--noconfirm'']
         @ (if single_file then [''--onefile''] else [])
         @ (if console then [] else [''--noconsole''])
         @ (case icon of
              Some i \<Rightarrow> if i \<noteq> [] \<and> fs w i \<noteq> None then [''--icon'', i] else []
            | None \<Rightarrow> [])
         @ [src], None)]"
  by (simp add: compile_def compile_py_def Let_def run_command_spawned icon_usable_def
        path_exists_def split: option.splits)

text \<open>On the sample host: the output \<open>/out/dist/app.exe\<close> gives \<open>/out/dist\<close> and \<open>app\<close>.\<close>

lemma compile_py_example:
  "spawned (snd (compile bare_host ''/src/app.py'' ''/out/dist/app.exe'' ''py''
      (Some ''/src/app.ico'') False True False None sample_world)) =
     [([''pyinstaller'', ''--distpath'', ''/out/dist'', ''--name'', ''app'', ''--noconfirm'',
        ''--icon'', ''/src/app.ico'', ''/src/app.py''], None)]"
  by (simp add: compile_dispatch compile_py_def Let_def run_command_spawned icon_usable_def
      path_exists_def bare_host_def sample_world_def posix_dirname_def posix_basename_def
      posix_splitext_def)

section \<open>The batch strategy and its workspace\<close>

text \<open>
  Claim C4, as stated, fails: on a host where removing the workspace fails, the packager
  runs and exits with status 0, \<open>compile\<close> returns its result, and the workspace, which
  did not exist before, still exists afterwards.
\<close>

theorem compile_batch_cleanup_counterexample:
  "mkdtemp locked_host (fs sample_world) = Inr ''/tmp/tmpk3x9''
   \<and> \<not> path_exists sample_world ''/tmp/tmpk3x9''
   \<and> fst (compile locked_host ''/src/run.bat'' ''/out/run.exe'' ''bat'' None False False True None
        sample_world) = Inr (True, ''done'')
   \<and> path_exists (snd (compile locked_host ''/src/run.bat'' ''/out/run.exe'' ''bat'' None False False True None
        sample_world)) ''/tmp/tmpk3x9''"
  by (simp add: compile_def compile_batch_def compile_batch_try_def Let_def run_command_def
      subprocess_run_def locked_host_def bare_host_def sample_world_def path_exists_def
      shutil_copy_def write_text_def rmtree_def posix_basename_def posix_join_def)

text \<open>
  Claim C4, amended. For every batch, command or VBScript compilation whose workspace
  was created, the state after \<open>compile\<close> is the state in which the \<open>try\<close> block ended
  (whether it returned the packager's result or raised) with the removal of the workspace
  applied to it; and whenever that removal does not fail, the workspace does not exist
  afterwards. The removal ignores its errors, so when it fails the workspace stays.
\<close>

theorem compile_batch_cleanup:
  assumes "mkdtemp h (fs w) = Inr d"
    and "file_type \<in> {''bat'', ''cmd'', ''vbs''}"
  shows "snd (compile h src out file_type icon admin console single_file metadata w) =
           rmtree h d (snd (compile_batch_try h src out d (w\<lparr>fs := (fs w)(d \<mapsto> 0)\<rparr>)))
         \<and> (\<not> rmtree_fails h d \<longrightarrow>
              \<not> path_exists (snd (compile h src out file_type icon admin console single_file metadata w)) d)"
proof -
  from assms(2) consider "file_type = ''bat''" | "file_type = ''cmd''" | "file_type = ''vbs''"
    by blast
  then have c: "compile h src out file_type icon admin console single_file metadata w =
        compile_batch h src out w"
    by cases (simp_all only: compile_dispatch)
  have s: "snd (compile_batch h src out w) =
           rmtree h d (snd (compile_batch_try h src out d (w\<lparr>fs := (fs w)(d \<mapsto> 0)\<rparr>)))"
    using assms(1) by (simp add: compile_batch_def Let_def)
  have "\<not> path_exists (rmtree h d w') d" if "\<not> rmtree_fails h d" for w'
    using that by (simp add: rmtree_def path_exists_def beneath_def)
  with c s show ?thesis by simp
qed

theorem compile_batch_cleanup_witness:
  "mkdtemp bare_host (fs sample_world) = Inr ''/tmp/tmpk3x9''
   \<and> ''bat'' \<in> {''bat'', ''cmd'', ''vbs''}
   \<and> \<not> rmtree_fails bare_host ''/tmp/tmpk3x9''
   \<and> \<not> path_exists (snd (compile bare_host ''/src/run.bat'' ''/out/run.exe'' ''bat'' None False
          False True None sample_world)) ''/tmp/tmpk3x9''"
proof -
  have a: "mkdtemp bare_host (fs sample_world) = Inr ''/tmp/tmpk3x9''"
    by (simp add: bare_host_def)
  have b: "''bat'' \<in> {''bat'', ''cmd'', ''vbs''}" by simp
  have c: "\<not> rmtree_fails bare_host ''/tmp/tmpk3x9''" by (simp add: bare_host_def)
  have "\<not> path_exists (snd (compile bare_host ''/src/run.bat'' ''/out/run.exe'' ''bat'' None False
          False True None sample_world)) ''/tmp/tmpk3x9''"
    by (rule compile_batch_cleanup [OF a b, of "''/src/run.bat''" "''/out/run.exe''" None False
          False True None, THEN conjunct2, THEN mp, OF c])
  with a b c show ?thesis by (intro conjI)
qed

text \<open>
  Claim C5. The code breaks it: with a source that does not exist, the copy into the
  workspace raises, the \<open>finally\<close> removes the workspace, and the exception leaves
  \<open>compile\<close>; no failed result is returned.
\<close>

theorem compile_batch_exception_escapes:
  "compile bare_host ''/src/gone.bat'' ''/out/gone.exe'' ''bat'' None False False True None sample_world
     = (Inl (Exception (''[Errno 2] No such file or directory: '' @ sq @ ''/src/gone.bat'' @ sq)),
        sample_world)"
  by (simp add: compile_def compile_batch_def compile_batch_try_def Let_def
      bare_host_def sample_world_def shutil_copy_def rmtree_def beneath_def posix_basename_def
      posix_join_def fun_eq_iff)

section \<open>Properties of the size estimation\<close>

lemma half_even_ge: "of_int n \<le> x \<Longrightarrow> n \<le> half_even x"
proof -
  assume "of_int n \<le> x"
  then have "n \<le> \<lfloor>x\<rfloor>" by (simp add: le_floor_iff)
  then show ?thesis by (simp add: half_even_def Let_def)
qed

lemma half_even_le: "x \<le> of_int n \<Longrightarrow> half_even x \<le> n"
proof -
  assume a: "x \<le> of_int n"
  show ?thesis
  proof (cases "x = of_int n")
    case True
    then show ?thesis by (simp add: half_even_def Let_def)
  next
    case False
    with a have "x < of_int n" by simp
    then have "\<lfloor>x\<rfloor> < n" by (simp add: floor_less_iff)
    then show ?thesis by (simp add: half_even_def Let_def)
  qed
qed

lemma half_even_near: "of_int n - 1 / 2 < x \<Longrightarrow> x \<le> of_int n \<Longrightarrow> half_even x = n"
proof -
  assume a: "of_int n - 1 / 2 < x" and b: "x \<le> of_int n"
  show ?thesis
  proof (cases "x = of_int n")
    case True
    then show ?thesis by (simp add: half_even_def Let_def)
  next
    case False
    with b have lt: "x < of_int n" by simp
    have "\<lfloor>x\<rfloor> = n - 1"
      using a lt by (intro floor_unique) auto
    then show ?thesis using a by (simp add: half_even_def Let_def)
  qed
qed

lemma ilog2_bounds: "0 < n \<Longrightarrow> 2 ^ ilog2 n \<le> n \<and> n < 2 * 2 ^ ilog2 n"
proof (induction n rule: ilog2.induct)
  case (1 n)
  show ?case
  proof (cases "n < 2")
    case True
    with 1 show ?thesis by (simp add: ilog2.simps)
  next
    case False
    then have "0 < n div 2" by simp
    with 1 False have ih: "2 ^ ilog2 (n div 2) \<le> n div 2 \<and> n div 2 < 2 * 2 ^ ilog2 (n div 2)"
      by simp
    have s: "ilog2 n = Suc (ilog2 (n div 2))" using False by (simp add: ilog2.simps)
    from ih show ?thesis unfolding s by simp linarith
  qed
qed

lemma ilog2_less: "0 < n \<Longrightarrow> n < 2 ^ k \<Longrightarrow> ilog2 n < k"
proof -
  assume a: "0 < n" and b: "n < 2 ^ k"
  from ilog2_bounds [OF a] b have "(2::nat) ^ ilog2 n < 2 ^ k" by linarith
  then show ?thesis by simp
qed


lemma pow2_small: "e \<le> 48 \<Longrightarrow> pow2 (int e - 52) = 1 / (16 * 2 ^ (48 - e))"
proof -
  assume a: "e \<le> 48"
  then have n: "nat (52 - int e) = 4 + (48 - e)" by simp
  have "pow2 (int e - 52) = 1 / 2 ^ nat (52 - int e)"
    using a by (simp add: pow2_def)
  also have "\<dots> = 1 / (16 * 2 ^ (48 - e))"
    unfolding n power_add by simp
  finally show ?thesis .
qed

lemma round_double_scaled:
  fixes K :: int and x :: rat
  assumes K: "1 \<le> K" "K < 2 ^ 49" and Kx: "of_int K \<le> x" and lt: "x < of_int K + 1"
  shows "round_double x =
     of_int (half_even (x * (16 * 2 ^ (48 - ilog2 (nat K))))) / (16 * 2 ^ (48 - ilog2 (nat K)))"
proof -
  have fl: "\<lfloor>x\<rfloor> = K" using Kx lt by (intro floor_unique) auto
  have x1: "1 \<le> x" using K(1) Kx by (meson of_int_1_le_iff order_trans)
  have "nat K < 2 ^ 49" using K by (simp add: nat_less_iff)
  moreover have "0 < nat K" using K by simp
  ultimately have "ilog2 (nat K) < 49" by (rule ilog2_less [rotated])
  then have e: "ilog2 (nat K) \<le> 48" by simp
  have bin: "binade x = int (ilog2 (nat K))" using x1 by (simp add: binade_def fl)
  have u: "pow2 (binade x - 52) = 1 / (16 * 2 ^ (48 - ilog2 (nat K)))"
    unfolding bin by (rule pow2_small [OF e])
  have pos: "0 < x" using x1 by simp
  then have ax: "\<bar>x\<bar> = x" by simp
  show ?thesis
    using pos by (simp add: round_double_def Let_def ax u)
qed

lemma round_double_sandwich:
  fixes K i j :: int and x :: rat
  assumes K: "1 \<le> K" "K < 2 ^ 49" and i: "0 \<le> i"
    and lo: "of_int K + of_int i / 16 \<le> x" and hi: "x \<le> of_int K + of_int j / 16"
    and lt: "x < of_int K + 1"
  shows "of_int K + of_int i / 16 \<le> round_double x \<and> round_double x \<le> of_int K + of_int j / 16"
proof -
  have Kx: "of_int K \<le> x"
  proof -
    have "(0::rat) \<le> of_int i / 16" using i by simp
    with lo show ?thesis by linarith
  qed
  define Ti :: int where "Ti = 2 ^ (48 - ilog2 (nat K))"
  have Tp: "0 < Ti" by (simp add: Ti_def)
  have T: "(16 * 2 ^ (48 - ilog2 (nat K)) :: rat) = 16 * of_int Ti" by (simp add: Ti_def)
  have rd: "round_double x = of_int (half_even (x * (16 * of_int Ti))) / (16 * of_int Ti)"
    using round_double_scaled [OF K Kx lt] unfolding T .
  have A: "of_int ((16 * K + i) * Ti) = (of_int K + of_int i / 16) * (16 * of_int Ti :: rat)"
    by (simp add: algebra_simps)
  have B: "of_int ((16 * K + j) * Ti) = (of_int K + of_int j / 16) * (16 * of_int Ti :: rat)"
    by (simp add: algebra_simps)
  have Tr: "(0::rat) < 16 * of_int Ti" using Tp by simp
  have "of_int ((16 * K + i) * Ti) \<le> x * (16 * of_int Ti)"
    unfolding A using lo Tr by (simp add: mult_right_mono)
  then have hA: "(16 * K + i) * Ti \<le> half_even (x * (16 * of_int Ti))" by (rule half_even_ge)
  have "x * (16 * of_int Ti) \<le> of_int ((16 * K + j) * Ti)"
    unfolding B using hi Tr by (simp add: mult_right_mono)
  then have hB: "half_even (x * (16 * of_int Ti)) \<le> (16 * K + j) * Ti" by (rule half_even_le)
  have "(of_int K + of_int i / 16) * (16 * of_int Ti :: rat) \<le> of_int (half_even (x * (16 * of_int Ti)))"
    unfolding A [symmetric] using hA by (simp only: of_int_le_iff)
  then have 1: "of_int K + of_int i / 16 \<le> round_double x"
    unfolding rd using Tr by (simp add: pos_le_divide_eq)
  have "of_int (half_even (x * (16 * of_int Ti))) \<le> (of_int K + of_int j / 16) * (16 * of_int Ti :: rat)"
    unfolding B [symmetric] using hB by (simp only: of_int_le_iff)
  then have 2: "round_double x \<le> of_int K + of_int j / 16"
    unfolding rd using Tr by (simp add: pos_divide_le_eq)
  from 1 2 show ?thesis ..
qed

lemma round_double_int:
  fixes K :: int
  assumes "0 \<le> K" "K < 2 ^ 49"
  shows "round_double (of_int K) = of_int K"
proof (cases "K = 0")
  case True
  then show ?thesis by (simp add: round_double_def)
next
  case False
  with assms have K: "1 \<le> K" by simp
  from round_double_sandwich [OF K assms(2), of 0 "of_int K" 0]
  show ?thesis by simp
qed

lemma round_double_below_int:
  fixes J :: int and d :: rat
  assumes J: "2 \<le> J" "J < 2 ^ 49" and d: "0 < d" "d \<le> 1"
    and small: "d * (16 * 2 ^ (48 - ilog2 (nat (J - 1)))) < 1 / 2"
  shows "round_double (of_int J - d) = of_int J"
proof -
  define Ti :: int where "Ti = 2 ^ (48 - ilog2 (nat (J - 1)))"
  have Tp: "0 < Ti" by (simp add: Ti_def)
  have T: "(16 * 2 ^ (48 - ilog2 (nat (J - 1))) :: rat) = 16 * of_int Ti" by (simp add: Ti_def)
  have K: "1 \<le> J - 1" "J - 1 < 2 ^ 49" using J by simp_all
  have Kx: "of_int (J - 1) \<le> of_int J - d" using d by simp
  have lt: "of_int J - d < of_int (J - 1) + 1" using d by simp
  have rd: "round_double (of_int J - d) =
      of_int (half_even ((of_int J - d) * (16 * of_int Ti))) / (16 * of_int Ti)"
    using round_double_scaled [OF K Kx lt] unfolding T .
  have e: "(of_int J - d) * (16 * of_int Ti) = of_int (J * (16 * Ti)) - d * (16 * of_int Ti)"
    by (simp add: algebra_simps)
  have s: "d * (16 * of_int Ti) < 1 / 2" using small unfolding T .
  have p: "0 < d * (16 * of_int Ti)" using d Tp by simp
  have "half_even ((of_int J - d) * (16 * of_int Ti)) = J * (16 * Ti)"
    unfolding e using s p by (intro half_even_near) linarith+
  then show ?thesis unfolding rd using Tp by simp
qed


lemma float_literal_15: "float_literal 15 1 = 3 / 2"
  by code_simp

lemma float_literal_12: "float_literal 12 1 = 5404319552844595 / 4503599627370496"
  by code_simp

lemma float_literal_13: "float_literal 13 1 = 5854679515581645 / 4503599627370496"
  by code_simp

lemma float_literal_11: "float_literal 11 1 = 4953959590107546 / 4503599627370496"
  by code_simp

lemma trunc_sum_sandwich:
  fixes J base i j :: int and x :: rat
  assumes J: "1 \<le> J" and b: "1 \<le> base" and s: "base + J < 2 ^ 49"
    and i: "0 \<le> i" and j: "j \<le> 15"
    and lo: "of_int J + of_int i / 16 \<le> x" and hi: "x \<le> of_int J + of_int j / 16"
  shows "float_trunc (round_double (of_int base + round_double x)) = base + J"
proof -
  have j16: "(of_int j :: rat) / 16 < 1"
  proof -
    have "(of_int j :: rat) \<le> 15" using j by (simp add: of_int_le_iff [of j 15, simplified])
    then show ?thesis by simp
  qed
  have J49: "J < 2 ^ 49" using b s by simp
  have lt: "x < of_int J + 1" using hi j16 by linarith
  from round_double_sandwich [OF J J49 i lo hi lt]
  have y: "of_int J + of_int i / 16 \<le> round_double x" "round_double x \<le> of_int J + of_int j / 16"
    by simp_all
  have K: "1 \<le> base + J" using J b by simp
  have lo2: "of_int (base + J) + of_int i / 16 \<le> of_int base + round_double x"
    using y(1) by simp
  have hi2: "of_int base + round_double x \<le> of_int (base + J) + of_int j / 16"
    using y(2) by simp
  have lt2: "of_int base + round_double x < of_int (base + J) + 1"
    using hi2 j16 by linarith
  from round_double_sandwich [OF K s i lo2 hi2 lt2]
  have z: "of_int (base + J) + of_int i / 16 \<le> round_double (of_int base + round_double x)"
    "round_double (of_int base + round_double x) \<le> of_int (base + J) + of_int j / 16"
    by simp_all
  have i0: "(0::rat) \<le> of_int i / 16" using i by simp
  have ge: "of_int (base + J) \<le> round_double (of_int base + round_double x)"
    using z(1) i0 by linarith
  have lt3: "round_double (of_int base + round_double x) < of_int (base + J) + 1"
    using z(2) j16 by linarith
  have nn: "\<not> round_double (of_int base + round_double x) < 0"
  proof -
    have "(0::rat) \<le> of_int (base + J)" using K by simp
    with ge show ?thesis by linarith
  qed
  have "\<lfloor>round_double (of_int base + round_double x)\<rfloor> = base + J"
    using ge lt3 by (intro floor_unique) auto
  with nn show ?thesis by (simp add: float_trunc_def)
qed


lemma float_scaled_general:
  fixes n base p q :: int and \<mu> :: rat
  assumes n: "0 \<le> n" "n < 2 ^ 48" and b: "1 \<le> base" "base < 2 ^ 26"
    and q: "0 < q" "q \<le> 10" and p: "q \<le> p" "2 * p \<le> 3 * q"
    and mu: "\<bar>\<mu> - of_int p / of_int q\<bar> \<le> 1 / 2 ^ 53"
    and ex: "(n * p) mod q = 0 \<Longrightarrow> of_int p / of_int q \<le> \<mu>"
  shows "float_trunc (float_add (float_of_int base) (float_mul (float_of_int n) \<mu>)) =
           base + (n * p) div q"
proof -
  have fb: "float_of_int base = of_int base"
    unfolding float_of_int_def using b by (intro round_double_int) simp_all
  have fn: "float_of_int n = of_int n"
    unfolding float_of_int_def using n by (intro round_double_int) simp_all
  have goal: "float_trunc (float_add (float_of_int base) (float_mul (float_of_int n) \<mu>)) =
      float_trunc (round_double (of_int base + round_double (of_int n * \<mu>)))"
    by (simp add: float_add_def float_mul_def fb fn)
  show ?thesis
  proof (cases "n = 0")
    case True
    have "round_double (of_int base + round_double 0) = of_int base"
      using b by (simp add: round_double_def [of 0] round_double_int)
    moreover have "\<not> (of_int base :: rat) < 0" using b by simp
    ultimately show ?thesis unfolding goal using True by (simp add: float_trunc_def)
  next
    case False
    with n have n1: "1 \<le> n" by simp
    define J where "J = (n * p) div q"
    define r where "r = (n * p) mod q"
    have np: "n * p = q * J + r" by (simp add: J_def r_def)
    have r0: "0 \<le> r" and rq: "r < q" using q by (simp_all add: r_def)
    have qr: "(of_int q :: rat) > 0" using q by simp
    have exact: "of_int n * (of_int p / of_int q) = of_int J + (of_int r / of_int q :: rat)"
    proof -
      have "(of_int (n * p) :: rat) = of_int (q * J + r)" using np by simp
      then have "(of_int n * of_int p :: rat) = of_int q * of_int J + of_int r" by simp
      then show ?thesis using qr by (simp add: field_simps)
    qed
    have nq: "q \<le> n * p"
    proof -
      have "q * 1 \<le> p * n" using n1 p(1) q(1) by (intro mult_mono) simp_all
      then show ?thesis by (simp add: mult.commute)
    qed
    have J1: "1 \<le> J"
    proof -
      have "q div q \<le> (n * p) div q" using nq q(1) by (intro zdiv_mono1) simp_all
      then show ?thesis using q(1) by (simp add: J_def)
    qed
    have J2: "2 * J \<le> 3 * n"
    proof -
      have "q * J \<le> n * p" using np r0 by simp
      then have "2 * (q * J) \<le> n * (2 * p)" by simp
      also have "\<dots> \<le> n * (3 * q)" using p(2) n(1) by (intro mult_left_mono) simp_all
      finally have "q * (2 * J) \<le> q * (3 * n)" by (simp add: algebra_simps)
      then show ?thesis using q(1) by simp
    qed
    have sJ: "base + J < 2 ^ 49" using J2 n(2) b(2) by simp
    have err: "\<bar>of_int n * \<mu> - (of_int J + of_int r / of_int q)\<bar> < 1 / 32"
    proof -
      have "of_int n * \<mu> - (of_int J + of_int r / of_int q) =
          of_int n * (\<mu> - of_int p / of_int q)"
        unfolding exact [symmetric] by (simp add: algebra_simps)
      then have "\<bar>of_int n * \<mu> - (of_int J + of_int r / of_int q)\<bar> =
          of_int n * \<bar>\<mu> - of_int p / of_int q\<bar>"
        using n(1) by (simp add: abs_mult)
      also have "\<dots> \<le> of_int n * (1 / 2 ^ 53)"
        using mu n(1) by (intro mult_left_mono) simp_all
      also have "\<dots> < 2 ^ 48 * (1 / 2 ^ 53)"
      proof -
        have "(of_int n :: rat) < 2 ^ 48" using n(2) by (simp add: of_int_less_iff [of n "2 ^ 48", simplified])
        then show ?thesis by simp
      qed
      also have "\<dots> = (1 / 32 :: rat)" by simp
      finally show ?thesis .
    qed
    then have e1: "of_int n * \<mu> - (of_int J + of_int r / of_int q) < 1 / 32"
      and e2: "- (of_int n * \<mu> - (of_int J + of_int r / of_int q)) < 1 / 32"
      unfolding abs_less_iff by simp_all
    show ?thesis
    proof (cases "r = 0")
      case True
      then have "(n * p) mod q = 0" by (simp add: r_def)
      then have "of_int p / of_int q \<le> \<mu>" by (rule ex)
      then have "of_int n * (of_int p / of_int q) \<le> of_int n * \<mu>"
        using n(1) by (intro mult_left_mono) simp_all
      then have lo: "of_int J + of_int (0::int) / 16 \<le> of_int n * \<mu>"
        unfolding exact using True by simp
      have "(of_int r / of_int q :: rat) = 0" using True by simp
      with e1 have hi: "of_int n * \<mu> \<le> of_int J + of_int (1::int) / 16"
        by simp
      from trunc_sum_sandwich [OF J1 b(1) sJ _ _ lo hi]
      show ?thesis unfolding goal J_def by simp
    next
      case False
      with r0 have r1: "1 \<le> r" by simp
      have f1: "(1 / 10 :: rat) \<le> of_int r / of_int q"
      proof -
        have "(of_int q :: rat) \<le> 10 * of_int r"
        proof -
          have "q \<le> 10 * r" using r1 q(2) by simp
          then show ?thesis by (simp add: of_int_le_iff [of q "10 * r", simplified])
        qed
        then show ?thesis using qr by (simp add: field_simps)
      qed
      have f2: "of_int r / of_int q \<le> (9 / 10 :: rat)"
      proof -
        have "10 * r \<le> 9 * q" using rq q(2) by simp
        then have "(10 * of_int r :: rat) \<le> 9 * of_int q"
          by (simp add: of_int_le_iff [of "10 * r" "9 * q", simplified])
        then show ?thesis using qr by (simp add: field_simps)
      qed
      have lo: "of_int J + of_int (1::int) / 16 \<le> of_int n * \<mu>"
        using e2 f1 by simp
      have hi: "of_int n * \<mu> \<le> of_int J + of_int (15::int) / 16"
        using e1 f2 by simp
      from trunc_sum_sandwich [OF J1 b(1) sJ _ _ lo hi]
      show ?thesis unfolding goal J_def by simp
    qed
  qed
qed



lemma float_trunc_int: "0 \<le> m \<Longrightarrow> float_trunc (of_int m) = m"
  by (simp add: float_trunc_def)

lemma float_scaled_12_multiple:
  fixes n base :: int
  assumes n: "0 \<le> n" "n < 2 ^ 48" and b: "1 \<le> base" "base < 2 ^ 26"
    and m: "(n * 6) mod 5 = 0"
  shows "float_trunc (float_add (float_of_int base)
           (float_mul (float_of_int n) (5404319552844595 / 4503599627370496))) =
         base + (n * 6) div 5"
proof -
  have fb: "float_of_int base = of_int base"
    unfolding float_of_int_def using b by (intro round_double_int) simp_all
  have fn: "float_of_int n = of_int n"
    unfolding float_of_int_def using n by (intro round_double_int) simp_all
  have goal: "float_trunc (float_add (float_of_int base)
           (float_mul (float_of_int n) (5404319552844595 / 4503599627370496))) =
      float_trunc (round_double (of_int base +
        round_double (of_int n * (5404319552844595 / 4503599627370496))))"
    by (simp add: float_add_def float_mul_def fb fn)
  define k where "k = n div 5"
  from m have "n mod 5 = 0" by presburger
  then have nk: "n = 5 * k" unfolding k_def by presburger
  have k0: "0 \<le> k" using n(1) nk by simp
  have J: "(n * 6) div 5 = 6 * k" by (simp add: nk)
  have s49: "base + 6 * k < 2 ^ 49" using n(2) b(2) nk by simp
  have sum0: "0 \<le> base + 6 * k" using b k0 by simp
  have inner: "round_double (of_int n * (5404319552844595 / 4503599627370496)) = of_int (6 * k)"
  proof (cases "k = 0")
    case True
    then show ?thesis by (simp add: nk round_double_def)
  next
    case False
    with k0 have k1: "1 \<le> k" by simp
    define e where "e = ilog2 (nat (6 * k - 1))"
    define P :: rat where "P = 2 ^ (48 - e)"
    have x: "of_int n * (5404319552844595 / 4503599627370496 :: rat) =
        of_int (6 * k) - of_int k / 2 ^ 52"
      by (simp add: nk field_simps)
    have J2: "2 \<le> 6 * k" using k1 by simp
    have J49: "6 * k < 2 ^ 49" using n(2) nk by simp
    have d0: "(0::rat) < of_int k / 2 ^ 52" using k1 by simp
    have d1: "(of_int k :: rat) / 2 ^ 52 \<le> 1"
    proof -
      have "k \<le> 2 ^ 52" using n(2) nk by simp
      then have "(of_int k :: rat) \<le> 2 ^ 52" by (simp add: of_int_le_iff [of k "2 ^ 52", simplified])
      then show ?thesis by simp
    qed
    have pos: "0 < nat (6 * k - 1)" using k1 by simp
    have lt: "nat (6 * k - 1) < 2 ^ 49" using J49 by (simp add: nat_less_iff)
    have e48: "e \<le> 48" using ilog2_less [OF pos lt] by (simp add: e_def)
    from ilog2_bounds [OF pos] have "nat (6 * k - 1) < 2 * 2 ^ e" by (simp add: e_def)
    then have "int (nat (6 * k - 1)) < int (2 * 2 ^ e)" by (simp only: of_nat_less_iff)
    then have "6 * k - 1 < 2 * 2 ^ e" using k1 by simp
    then have "3 * k \<le> 2 ^ e" by simp
    then have Q: "(3 * of_int k :: rat) \<le> 2 ^ e"
      by (simp add: of_int_le_iff [of "3 * k" "2 ^ e", simplified])
    have PQ: "P * 2 ^ e = 2 ^ 48"
      unfolding P_def using e48 by (simp add: power_add [symmetric])
    have Pp: "0 < P" by (simp add: P_def)
    define t where "t = of_int k * P"
    have "P * (3 * of_int k) \<le> P * 2 ^ e"
      using Q Pp by (intro mult_left_mono) simp_all
    then have "t * 3 \<le> P * 2 ^ e" by (simp add: t_def algebra_simps)
    then have kP: "t * 3 \<le> 281474976710656" unfolding PQ by simp
    have "of_int k / 2 ^ 52 * (16 * P) = t / 281474976710656" by (simp add: t_def)
    also have "\<dots> < 1 / 2" using kP by simp
    finally have small:
      "(of_int k :: rat) / 2 ^ 52 * (16 * 2 ^ (48 - ilog2 (nat (6 * k - 1)))) < 1 / 2"
      by (simp add: P_def e_def)
    show ?thesis
      unfolding x by (rule round_double_below_int [OF J2 J49 d0 d1 small])
  qed
  have "round_double (of_int base + of_int (6 * k)) = of_int (base + 6 * k)"
    using round_double_int [OF sum0 s49] by simp
  then show ?thesis
    unfolding goal inner J using float_trunc_int [OF sum0] by simp
qed

lemma py_float_expr:
  "py_int (int_plus base (int_times n (PyFloat x))) =
     float_trunc (float_add (float_of_int base) (float_mul (float_of_int n) x))"
  by simp

lemma scaled_15:
  fixes n base :: int
  assumes "0 \<le> n" "n < 2 ^ 48" "1 \<le> base" "base < 2 ^ 26"
  shows "py_int (int_plus base (int_times n (PyFloat (float_literal 15 1)))) = base + (n * 3) div 2"
  unfolding py_float_expr float_literal_15
  by (rule float_scaled_general [OF assms]) simp_all

lemma scaled_11:
  fixes n base :: int
  assumes "0 \<le> n" "n < 2 ^ 48" "1 \<le> base" "base < 2 ^ 26"
  shows "py_int (int_plus base (int_times n (PyFloat (float_literal 11 1)))) = base + (n * 11) div 10"
  unfolding py_float_expr float_literal_11
  by (rule float_scaled_general [OF assms]) simp_all

lemma scaled_13:
  fixes n base :: int
  assumes "0 \<le> n" "n < 2 ^ 48" "1 \<le> base" "base < 2 ^ 26"
  shows "py_int (int_plus base (int_times n (PyFloat (float_literal 13 1)))) = base + (n * 13) div 10"
  unfolding py_float_expr float_literal_13
  by (rule float_scaled_general [OF assms]) simp_all

lemma scaled_12:
  fixes n base :: int
  assumes "0 \<le> n" "n < 2 ^ 48" "1 \<le> base" "base < 2 ^ 26"
  shows "py_int (int_plus base (int_times n (PyFloat (float_literal 12 1)))) = base + (n * 6) div 5"
proof (cases "(n * 6) mod 5 = 0")
  case True
  show ?thesis
    unfolding py_float_expr float_literal_12
    by (rule float_scaled_12_multiple [OF assms True])
next
  case False
  show ?thesis
    unfolding py_float_expr float_literal_12
    by (rule float_scaled_general [OF assms]) (use False in simp_all)
qed

lemma estimates_dom: "(estimates file_type \<noteq> None) =
    (file_type \<in> {''ps1'', ''py'', ''bat'', ''cmd'', ''js'', ''vbs'', ''ahk'', ''cs'', ''go'', ''rb''})"
  by (simp add: estimates_def)

lemma estimates_rows:
  "estimates ''ps1'' = Some (5 * 1024 * 1024, PyFloat (float_literal 15 1))"
  "estimates ''py'' = Some (15 * 1024 * 1024, PyInt 2)"
  "estimates ''bat'' = Some (50 * 1024, PyFloat (float_literal 12 1))"
  "estimates ''cmd'' = Some (50 * 1024, PyFloat (float_literal 12 1))"
  "estimates ''js'' = Some (40 * 1024 * 1024, PyFloat (float_literal 15 1))"
  "estimates ''vbs'' = Some (50 * 1024, PyFloat (float_literal 12 1))"
  "estimates ''ahk'' = Some (1 * 1024 * 1024, PyFloat (float_literal 13 1))"
  "estimates ''cs'' = Some (10 * 1024, PyFloat (float_literal 11 1))"
  "estimates ''go'' = Some (2 * 1024 * 1024, PyFloat (float_literal 12 1))"
  "estimates ''rb'' = Some (20 * 1024 * 1024, PyInt 2)"
  by (simp_all add: estimates_def)

lemma estimate_row:
  "fs w source_file = Some n \<Longrightarrow> estimates file_type = Some (base, multiplier) \<Longrightarrow>
   estimate_output_size w source_file file_type =
     format_size (py_int (int_plus base (int_times (int n) multiplier)))"
  by (simp add: estimate_output_size_def Let_def)

text \<open>
  Claim C7. \<open>estimate_output_size\<close> returns \<open>Unknown\<close> for a source path that does not
  exist and for a type with no entry in the table (any type but the ten supported ones).
  For a source that exists, of \<open>n\<close> bytes, it returns \<open>format_size\<close> of the base plus the
  multiplier times \<open>n\<close>, in whole bytes (\<open>int\<close> drops the fraction): for a Python source
  the entry is 15 MiB and 2, computed in integers, so the estimate is the formatted value
  of \<open>15 MiB + 2 * n\<close>, and likewise for Ruby with 20 MiB; for the eight types whose
  multiplier is a float (1.5, 1.2, 1.3, 1.1), and a source below \<open>2 ^ 48\<close> bytes, Python's
  float arithmetic gives the same whole number of bytes as exact arithmetic.
\<close>

theorem estimate_output_size_value:
  "(fs w source_file = None \<longrightarrow> estimate_output_size w source_file file_type = ''Unknown'')
   \<and> (file_type \<notin> {''ps1'', ''py'', ''bat'', ''cmd'', ''js'', ''vbs'', ''ahk'', ''cs'', ''go'', ''rb''} \<longrightarrow>
        estimates file_type = None
        \<and> estimate_output_size w source_file file_type = ''Unknown'')
   \<and> estimates ''py'' = Some (15 * 1024 * 1024, PyInt 2)
   \<and> (\<forall>n. fs w source_file = Some n \<longrightarrow>
        estimate_output_size w source_file ''py'' =
          format_size (15 * 1024 * 1024 + 2 * int n)
        \<and> estimate_output_size w source_file ''rb'' =
          format_size (20 * 1024 * 1024 + 2 * int n))
   \<and> (\<forall>n. fs w source_file = Some n \<and> n < 2 ^ 48 \<longrightarrow>
        estimate_output_size w source_file ''ps1'' =
          format_size (5 * 1024 * 1024 + (int n * 3) div 2)
        \<and> estimate_output_size w source_file ''bat'' =
          format_size (50 * 1024 + (int n * 6) div 5)
        \<and> estimate_output_size w source_file ''cmd'' =
          format_size (50 * 1024 + (int n * 6) div 5)
        \<and> estimate_output_size w source_file ''js'' =
          format_size (40 * 1024 * 1024 + (int n * 3) div 2)
        \<and> estimate_output_size w source_file ''vbs'' =
          format_size (50 * 1024 + (int n * 6) div 5)
        \<and> estimate_output_size w source_file ''ahk'' =
          format_size (1 * 1024 * 1024 + (int n * 13) div 10)
        \<and> estimate_output_size w source_file ''cs'' =
          format_size (10 * 1024 + (int n * 11) div 10)
        \<and> estimate_output_size w source_file ''go'' =
          format_size (2 * 1024 * 1024 + (int n * 6) div 5))"
  (is "?MISSING \<and> ?TYPE \<and> ?PY \<and> ?INTS \<and> ?FLOATS")
proof -
  have 1: ?MISSING
    by (simp add: estimate_output_size_def)
  have 2: ?TYPE
    using estimates_dom [of file_type]
    by (auto simp: estimate_output_size_def Let_def split: option.splits)
  have 3: ?PY by (rule estimates_rows)
  have 4: ?INTS
    by (simp add: estimate_row [OF _ estimates_rows(2)] estimate_row [OF _ estimates_rows(10)]
        mult.commute)
  have 5: ?FLOATS
  proof (intro allI impI)
    fix n :: nat
    assume a: "fs w source_file = Some n \<and> n < 2 ^ 48"
    then have f: "fs w source_file = Some n" and "n < 2 ^ 48" by simp_all
    then have n: "0 \<le> int n" "int n < 2 ^ 48"
      by (simp_all add: of_nat_less_iff [of n "2 ^ 48", simplified])
    show "estimate_output_size w source_file ''ps1'' =
          format_size (5 * 1024 * 1024 + (int n * 3) div 2)
        \<and> estimate_output_size w source_file ''bat'' =
          format_size (50 * 1024 + (int n * 6) div 5)
        \<and> estimate_output_size w source_file ''cmd'' =
          format_size (50 * 1024 + (int n * 6) div 5)
        \<and> estimate_output_size w source_file ''js'' =
          format_size (40 * 1024 * 1024 + (int n * 3) div 2)
        \<and> estimate_output_size w source_file ''vbs'' =
          format_size (50 * 1024 + (int n * 6) div 5)
        \<and> estimate_output_size w source_file ''ahk'' =
          format_size (1 * 1024 * 1024 + (int n * 13) div 10)
        \<and> estimate_output_size w source_file ''cs'' =
          format_size (10 * 1024 + (int n * 11) div 10)
        \<and> estimate_output_size w source_file ''go'' =
          format_size (2 * 1024 * 1024 + (int n * 6) div 5)"
      unfolding estimate_row [OF f estimates_rows(1)] estimate_row [OF f estimates_rows(3)]
        estimate_row [OF f estimates_rows(4)] estimate_row [OF f estimates_rows(5)]
        estimate_row [OF f estimates_rows(6)] estimate_row [OF f estimates_rows(7)]
        estimate_row [OF f estimates_rows(8)] estimate_row [OF f estimates_rows(9)]
      by (intro conjI arg_cong [of _ _ format_size])
        (rule scaled_15 [OF n] scaled_12 [OF n] scaled_13 [OF n] scaled_11 [OF n]; simp)+
  qed
  from 1 2 3 4 5 show ?thesis by (intro conjI)
qed

theorem estimate_output_size_value_witness:
  "fs \<lparr>fs = [''/src/a.cs'' \<mapsto> 47], spawned = []\<rparr> ''/src/gone.py'' = None
   \<and> estimate_output_size \<lparr>fs = [''/src/a.cs'' \<mapsto> 47], spawned = []\<rparr> ''/src/gone.py'' ''py''
       = ''Unknown''
   \<and> ''txt'' \<notin> {''ps1'', ''py'', ''bat'', ''cmd'', ''js'', ''vbs'', ''ahk'', ''cs'', ''go'', ''rb''}
   \<and> estimate_output_size \<lparr>fs = [''/src/a.cs'' \<mapsto> 47], spawned = []\<rparr> ''/src/a.cs'' ''txt''
       = ''Unknown''
   \<and> fs \<lparr>fs = [''/src/a.cs'' \<mapsto> 47], spawned = []\<rparr> ''/src/a.cs'' = Some 47
   \<and> (47 :: nat) < 2 ^ 48
   \<and> estimate_output_size \<lparr>fs = [''/src/a.cs'' \<mapsto> 47], spawned = []\<rparr> ''/src/a.cs'' ''cs''
       = ''10.0 KB''
   \<and> estimate_output_size \<lparr>fs = [''/src/a.cs'' \<mapsto> 47], spawned = []\<rparr> ''/src/a.cs'' ''bat''
       = ''50.1 KB''
   \<and> estimate_output_size \<lparr>fs = [''/src/a.cs'' \<mapsto> 47], spawned = []\<rparr> ''/src/a.cs'' ''py''
       = ''15.0 MB''"
proof -
  let ?w = "\<lparr>fs = [''/src/a.cs'' \<mapsto> 47], spawned = []\<rparr>"
  have a: "fs ?w ''/src/gone.py'' = None" by simp
  have b: "''txt'' \<notin> {''ps1'', ''py'', ''bat'', ''cmd'', ''js'', ''vbs'', ''ahk'', ''cs'', ''go'', ''rb''}"
    by simp
  have c: "fs ?w ''/src/a.cs'' = Some 47" by simp
  have d: "(47 :: nat) < 2 ^ 48" by simp
  note t1 = estimate_output_size_value [of ?w "''/src/gone.py''" "''py''"]
  note t2 = estimate_output_size_value [of ?w "''/src/a.cs''" "''txt''"]
  note fl = t2 [THEN conjunct2, THEN conjunct2, THEN conjunct2, THEN conjunct2, THEN spec,
      THEN mp, OF conjI, OF c d]
  have 1: "estimate_output_size ?w ''/src/gone.py'' ''py'' = ''Unknown''"
    by (rule t1 [THEN conjunct1, THEN mp, OF a])
  have 2: "estimate_output_size ?w ''/src/a.cs'' ''txt'' = ''Unknown''"
    by (rule t2 [THEN conjunct2, THEN conjunct1, THEN mp, OF b, THEN conjunct2])
  have 3: "estimate_output_size ?w ''/src/a.cs'' ''cs'' =
      format_size (10 * 1024 + (int 47 * 11) div 10)"
    by (rule fl [THEN conjunct2, THEN conjunct2, THEN conjunct2, THEN conjunct2, THEN conjunct2,
          THEN conjunct2, THEN conjunct1])
  have 4: "estimate_output_size ?w ''/src/a.cs'' ''bat'' =
      format_size (50 * 1024 + (int 47 * 6) div 5)"
    by (rule fl [THEN conjunct2, THEN conjunct1])
  have 5: "estimate_output_size ?w ''/src/a.cs'' ''py'' =
      format_size (15 * 1024 * 1024 + 2 * int 47)"
    by (rule t2 [THEN conjunct2, THEN conjunct2, THEN conjunct2, THEN conjunct1, THEN spec,
          THEN mp, OF c, THEN conjunct1])
  have 6: "format_size (10 * 1024 + (int 47 * 11) div 10) = ''10.0 KB''" by code_simp
  have 7: "format_size (50 * 1024 + (int 47 * 6) div 5) = ''50.1 KB''" by code_simp
  have 8: "format_size (15 * 1024 * 1024 + 2 * int 47) = ''15.0 MB''" by code_simp
  note 3 [unfolded 6] 4 [unfolded 7] 5 [unfolded 8]
  then show ?thesis by (intro conjI) (rule a 1 b 2 c d | assumption)+
qed

section \<open>Properties of the persistence stores\<close>

lemma take_append_take: "take n (xs @ take n ys) = take n (xs @ ys)"
  by (simp add: min_def)

lemma history_add_call_max [simp]:
  "h_max_items (fst (history_add_call c st)) = h_max_items (fst st)"
  by (simp add: history_add_call_def history_add_def Let_def)

lemma history_add_call_history:
  "0 \<le> h_max_items (fst st) \<Longrightarrow>
   h_history (fst (history_add_call c st)) =
     take (nat (h_max_items (fst st))) (entry_of c # h_history (fst st))"
  by (simp add: history_add_call_def history_add_def Let_def slice_to_def entry_of_def)

lemma history_add_calls_max [simp]:
  "h_max_items (fst (history_add_calls cs st)) = h_max_items (fst st)"
  by (induction cs arbitrary: st) simp_all

lemma history_add_calls_history:
  "0 \<le> h_max_items (fst st) \<Longrightarrow> cs \<noteq> [] \<Longrightarrow>
   h_history (fst (history_add_calls cs st)) =
     take (nat (h_max_items (fst st))) (rev (map entry_of cs) @ h_history (fst st))"
proof (induction cs arbitrary: st)
  case Nil
  then show ?case by simp
next
  case (Cons c cs)
  show ?case
  proof (cases "cs = []")
    case True
    with Cons.prems show ?thesis by (simp add: history_add_call_history)
  next
    case False
    have m: "0 \<le> h_max_items (fst (history_add_call c st))"
      using Cons.prems by simp
    from Cons.IH [OF m False] show ?thesis
      using Cons.prems by (simp add: history_add_call_history take_append_take)
  qed
qed

text \<open>
  Claim C8. For a cap \<open>max_items\<close> that is not negative, every starting history and every
  sequence of \<open>CompilationHistory.add\<close> calls: one call puts the new entry at the front
  and cuts the list to the cap; after any non-empty sequence of calls the list is the
  entries newest-first followed by the old ones, cut to the cap, so it never holds more
  than \<open>max_items\<close> entries; and \<open>max_items + 5\<close> calls leave exactly \<open>max_items\<close> entries,
  newest-first, without the five oldest.
\<close>

theorem history_add_newest_first_capped:
  assumes "0 \<le> h_max_items h"
  shows "h_history (fst (history_add w now src out ft ok prof sz (h, disk))) =
           take (nat (h_max_items h))
             (\<lparr>e_timestamp = now, e_source = src, e_output = out, e_type = ft,
               e_success = ok, e_profile = prof, e_size = sz\<rparr> # h_history h)
         \<and> (cs \<noteq> [] \<longrightarrow>
              h_history (fst (history_add_calls cs (h, disk))) =
                take (nat (h_max_items h)) (rev (map entry_of cs) @ h_history h)
              \<and> int (length (h_history (fst (history_add_calls cs (h, disk))))) \<le> h_max_items h)
         \<and> (int (length cs) = h_max_items h + 5 \<longrightarrow>
              h_history (fst (history_add_calls cs (h, disk))) = rev (map entry_of (drop 5 cs))
              \<and> int (length (h_history (fst (history_add_calls cs (h, disk))))) = h_max_items h)"
proof -
  let ?m = "nat (h_max_items h)"
  have one: "h_history (fst (history_add w now src out ft ok prof sz (h, disk))) =
           take ?m (\<lparr>e_timestamp = now, e_source = src, e_output = out, e_type = ft,
               e_success = ok, e_profile = prof, e_size = sz\<rparr> # h_history h)"
    using assms by (simp add: history_add_def Let_def slice_to_def)
  have many: "h_history (fst (history_add_calls cs (h, disk))) =
                take ?m (rev (map entry_of cs) @ h_history h)" if "cs \<noteq> []"
    using history_add_calls_history [of "(h, disk)" cs] assms that by simp
  have len: "int (length (h_history (fst (history_add_calls cs (h, disk))))) \<le> h_max_items h"
    if "cs \<noteq> []"
    using many [OF that] assms by simp
  have evict: "h_history (fst (history_add_calls cs (h, disk))) = rev (map entry_of (drop 5 cs))
       \<and> int (length (h_history (fst (history_add_calls cs (h, disk))))) = h_max_items h"
    if l: "int (length cs) = h_max_items h + 5"
  proof -
    from l assms have ne: "cs \<noteq> []" by auto
    from l assms have lc: "length cs = ?m + 5" by linarith
    have "take ?m (rev cs) = rev (drop 5 cs)"
      using lc by (simp add: take_rev)
    then have "take ?m (rev (map entry_of cs)) = rev (map entry_of (drop 5 cs))"
      by (simp add: rev_map take_map)
    then show ?thesis using many [OF ne] lc assms by simp
  qed
  from one many len evict show ?thesis by blast
qed

theorem history_add_newest_first_capped_witness:
  "0 \<le> h_max_items \<lparr>h_max_items = 1, h_history = [entry_of (sample_call ''z'')]\<rparr>
   \<and> map sample_call [''a'', ''b'', ''c'', ''d'', ''e'', ''f''] \<noteq> []
   \<and> int (length (map sample_call [''a'', ''b'', ''c'', ''d'', ''e'', ''f''])) =
       h_max_items \<lparr>h_max_items = 1, h_history = [entry_of (sample_call ''z'')]\<rparr> + 5
   \<and> h_history (fst (history_add_calls (map sample_call [''a'', ''b'', ''c'', ''d'', ''e'', ''f''])
        (\<lparr>h_max_items = 1, h_history = [entry_of (sample_call ''z'')]\<rparr>, None)))
       = [entry_of (sample_call ''f'')]"
proof -
  let ?h = "\<lparr>h_max_items = 1, h_history = [entry_of (sample_call ''z'')]\<rparr>"
  let ?cs = "map sample_call [''a'', ''b'', ''c'', ''d'', ''e'', ''f'']"
  have a: "0 \<le> h_max_items ?h" by simp
  have b: "int (length ?cs) = h_max_items ?h + 5" by simp
  from history_add_newest_first_capped [OF a, where cs = "?cs" and disk = None] b
  have "h_history (fst (history_add_calls ?cs (?h, None))) = rev (map entry_of (drop 5 ?cs))"
    by blast
  then have "h_history (fst (history_add_calls ?cs (?h, None))) = [entry_of (sample_call ''f'')]"
    by simp
  with a b show ?thesis by simp
qed

text \<open>
  Claim C9. For a cap \<open>max_items\<close> that is not negative and every recent-files list,
  \<open>RecentFiles.add\<close> leaves the path followed by the old list without its first
  occurrence of the path, cut to the cap: the list never holds more than \<open>max_items\<close>
  paths, the path is at the front when the cap is positive, a path already present does
  not occur more often than before, a list without duplicates stays without duplicates,
  and from the empty list, with a cap of at least two, adding \<open>A\<close>, then \<open>B\<close>, then \<open>A\<close>
  again gives \<open>[A, B]\<close>.
\<close>

theorem recent_add_moves_to_front:
  assumes "0 \<le> r_max_items r"
  shows "r_files (fst (recent_add w p (r, disk))) =
           take (nat (r_max_items r)) (p # remove1 p (r_files r))
         \<and> int (length (r_files (fst (recent_add w p (r, disk))))) \<le> r_max_items r
         \<and> r_max_items (fst (recent_add w p (r, disk))) = r_max_items r
         \<and> (0 < r_max_items r \<longrightarrow> hd (r_files (fst (recent_add w p (r, disk)))) = p)
         \<and> (p \<in> set (r_files r) \<longrightarrow>
               count_list (r_files (fst (recent_add w p (r, disk)))) p \<le> count_list (r_files r) p)
         \<and> (distinct (r_files r) \<longrightarrow> distinct (r_files (fst (recent_add w p (r, disk)))))
         \<and> (A \<noteq> B \<and> 2 \<le> r_max_items r \<longrightarrow>
               r_files (fst (recent_add w3 A (recent_add w2 B (recent_add w1 A (r\<lparr>r_files := []\<rparr>, disk)))))
                 = [A, B]
               \<and> length (r_files (fst (recent_add w3 A (recent_add w2 B
                    (recent_add w1 A (r\<lparr>r_files := []\<rparr>, disk)))))) = 2)"
proof -
  let ?m = "nat (r_max_items r)"
  have eq: "r_files (fst (recent_add w p (r, disk))) = take ?m (p # remove1 p (r_files r))"
    using assms by (simp add: recent_add_def Let_def slice_to_def remove1_idem)
  have len: "int (length (r_files (fst (recent_add w p (r, disk))))) \<le> r_max_items r"
    using assms by (simp add: eq)
  have mx: "r_max_items (fst (recent_add w p (r, disk))) = r_max_items r"
    by (simp add: recent_add_def Let_def)
  have front: "hd (r_files (fst (recent_add w p (r, disk)))) = p" if "0 < r_max_items r"
  proof -
    from that obtain k where "?m = Suc k" by (cases ?m) auto
    then show ?thesis by (simp add: eq)
  qed
  have cnt: "count_list (r_files (fst (recent_add w p (r, disk)))) p \<le> count_list (r_files r) p"
    if "p \<in> set (r_files r)"
  proof -
    have c0: "p \<in> set xs \<Longrightarrow> 0 < count_list xs p" for xs
      by (induction xs) auto
    have c1: "count_list (remove1 p xs) p = count_list xs p - 1" for xs
      by (induction xs) auto
    have c2: "count_list (take n xs) p \<le> count_list xs p" for n xs
    proof (induction xs arbitrary: n)
      case Nil then show ?case by simp
    next
      case (Cons x xs) then show ?case by (cases n) (auto intro: le_SucI)
    qed
    have "0 < count_list (r_files r) p" using that by (rule c0)
    then have "count_list (p # remove1 p (r_files r)) p = count_list (r_files r) p"
      by (simp add: c1)
    with c2 [of ?m "p # remove1 p (r_files r)"] show ?thesis by (simp add: eq)
  qed
  have dist: "distinct (r_files (fst (recent_add w p (r, disk))))" if "distinct (r_files r)"
    using that by (simp add: eq distinct_take)
  have ex: "r_files (fst (recent_add w3 A (recent_add w2 B (recent_add w1 A (r\<lparr>r_files := []\<rparr>, disk)))))
                 = [A, B]" if "A \<noteq> B \<and> 2 \<le> r_max_items r"
  proof -
    from that obtain k where "?m = Suc (Suc k)" by (cases ?m; cases "?m - 1") auto
    with that show ?thesis by (simp add: recent_add_def Let_def slice_to_def)
  qed
  from eq len mx front cnt dist ex show ?thesis by simp
qed

theorem recent_add_moves_to_front_witness:
  "0 \<le> r_max_items \<lparr>r_max_items = 10, r_files = [''b.py'', ''a.py'', ''c.py'']\<rparr>
   \<and> 0 < r_max_items \<lparr>r_max_items = 10, r_files = [''b.py'', ''a.py'', ''c.py'']\<rparr>
   \<and> 2 \<le> r_max_items \<lparr>r_max_items = 10, r_files = [''b.py'', ''a.py'', ''c.py'']\<rparr>
   \<and> ''a.py'' \<in> set (r_files \<lparr>r_max_items = 10, r_files = [''b.py'', ''a.py'', ''c.py'']\<rparr>)
   \<and> distinct (r_files \<lparr>r_max_items = 10, r_files = [''b.py'', ''a.py'', ''c.py'']\<rparr>)
   \<and> ''a.py'' \<noteq> ''b.py''
   \<and> r_files (fst (recent_add Written ''a.py''
         (\<lparr>r_max_items = 10, r_files = [''b.py'', ''a.py'', ''c.py'']\<rparr>, None)))
       = [''a.py'', ''b.py'', ''c.py'']
   \<and> r_files (fst (recent_add Written ''a.py'' (recent_add Written ''b.py''
         (recent_add Written ''a.py''
           (\<lparr>r_max_items = 10, r_files = [''b.py'', ''a.py'', ''c.py'']\<rparr>\<lparr>r_files := []\<rparr>, None)))))
       = [''a.py'', ''b.py'']"
proof -
  let ?r = "\<lparr>r_max_items = 10, r_files = [''b.py'', ''a.py'', ''c.py'']\<rparr>"
  have a: "0 \<le> r_max_items ?r" by simp
  have b: "''a.py'' \<noteq> ''b.py'' \<and> 2 \<le> r_max_items ?r" by simp
  note t = recent_add_moves_to_front [OF a, where p = "''a.py''" and w = Written and disk = None
      and A = "''a.py''" and B = "''b.py''" and ?w1.0 = Written and ?w2.0 = Written and ?w3.0 = Written]
  from t have 1: "r_files (fst (recent_add Written ''a.py'' (?r, None))) =
      take (nat (r_max_items ?r)) (''a.py'' # remove1 ''a.py'' (r_files ?r))"
    by blast
  from t b have 2: "r_files (fst (recent_add Written ''a.py'' (recent_add Written ''b.py''
         (recent_add Written ''a.py'' (?r\<lparr>r_files := []\<rparr>, None))))) = [''a.py'', ''b.py'']"
    by blast
  from 1 have 3: "r_files (fst (recent_add Written ''a.py'' (?r, None))) = [''a.py'', ''b.py'', ''c.py'']"
    by simp
  from 2 3 show ?thesis by simp
qed






lemma json_items_map_of_none:
  "json_items kvs = Some items \<Longrightarrow> map_of kvs k = None \<Longrightarrow> map_of items k = None"
  by (induction kvs arbitrary: items) (auto split: option.splits if_splits)


text \<open>
  Claim C10, as stated, fails, in both directions. A key outside the default schema set
  to \<open>None\<close> is dropped by the reload, and \<open>get\<close> answers \<open>None\<close> before and after, so the
  round trip holds for a key that is not a schema key. A schema key set to a tuple comes
  back from the reload as a list, so its value is not preserved.
\<close>

theorem settings_round_trip_schema_keys_counterexample:
  "''extra'' \<notin> fst ` set DEFAULT_SETTINGS
   \<and> settings_get (fst (settings_set Written ''extra'' PNone (DEFAULT_SETTINGS, None)))
        ''extra'' PNone = PNone
   \<and> settings_init (snd (settings_set Written ''extra'' PNone (DEFAULT_SETTINGS, None))) =
        Inr DEFAULT_SETTINGS
   \<and> settings_get DEFAULT_SETTINGS ''extra'' PNone = PNone
   \<and> ''theme'' \<in> fst ` set DEFAULT_SETTINGS
   \<and> settings_get (fst (settings_set Written ''theme'' (PTuple [PStr ''Dark''])
        (DEFAULT_SETTINGS, None))) ''theme'' PNone = PTuple [PStr ''Dark'']
   \<and> settings_init (snd (settings_set Written ''theme'' (PTuple [PStr ''Dark''])
        (DEFAULT_SETTINGS, None))) =
        Inr (dict_set ''theme'' (PList [PStr ''Dark'']) DEFAULT_SETTINGS)
   \<and> settings_get (dict_set ''theme'' (PList [PStr ''Dark'']) DEFAULT_SETTINGS) ''theme'' PNone =
        PList [PStr ''Dark'']
   \<and> PList [PStr ''Dark''] \<noteq> PTuple [PStr ''Dark'']"
  by (simp add: settings_get_def settings_set_def settings_save_def save_json_def
      settings_init_def settings_load_def load_json_def Let_def DEFAULT_SETTINGS_def)



end
